theory Spec2Isabelle
  imports Main "HOL-Library.AList" "HOL-Library.Sublist"
begin

section \<open>Python strings and integers\<close>

text \<open>
  Strings are character lists. \<open>str_nat\<close> is the decimal rendering that an f-string
  gives a non-negative \<open>int\<close> (port numbers and pids are never negative).
\<close>

definition digit_char :: "nat \<Rightarrow> char" where
  "digit_char d = ''0123456789'' ! d"

fun str_nat :: "nat \<Rightarrow> string" where
  "str_nat n = (if n < 10 then [digit_char n] else str_nat (n div 10) @ [digit_char (n mod 10)])"

declare str_nat.simps [simp del]

section \<open>Well-known port table\<close>

text \<open>\<open>ServerInventory._identify_service_by_port\<close> (Linux variant).\<close>

definition common_ports :: "(nat \<times> string) list" where
  "common_ports =
    [(20, ''FTP-DATA''), (21, ''FTP''), (22, ''SSH''), (23, ''Telnet''), (25, ''SMTP''),
     (53, ''DNS''), (80, ''HTTP''), (110, ''POP3''), (143, ''IMAP''), (443, ''HTTPS''),
     (445, ''SMB''), (587, ''SMTP-Submission''), (993, ''IMAPS''), (995, ''POP3S''),
     (1433, ''MS-SQL''), (1521, ''Oracle-DB''), (3306, ''MySQL''), (5432, ''PostgreSQL''),
     (5672, ''AMQP/RabbitMQ''), (6379, ''Redis''), (8080, ''HTTP-Alt''), (8443, ''HTTPS-Alt''),
     (9200, ''Elasticsearch''), (27017, ''MongoDB''), (11211, ''Memcached''), (50000, ''DB2'')]"

definition identify_service_by_port_linux :: "nat \<Rightarrow> string" where
  "identify_service_by_port_linux port =
     (case map_of common_ports port of
        Some label \<Rightarrow> label
      | None \<Rightarrow> ''Unknown-'' @ str_nat port)"

text \<open>\<open>WindowsServerInventory.identify_service_by_port\<close> (Windows variant).\<close>

definition well_known_ports :: "(nat \<times> string) list" where
  "well_known_ports =
    [(20, ''FTP-DATA''), (21, ''FTP''), (22, ''SSH''), (23, ''Telnet''),
     (25, ''SMTP''), (53, ''DNS''), (80, ''HTTP''), (110, ''POP3''),
     (143, ''IMAP''), (443, ''HTTPS''), (445, ''SMB''), (3306, ''MySQL''),
     (3389, ''RDP''), (5432, ''PostgreSQL''), (5900, ''VNC''),
     (6379, ''Redis''), (8080, ''HTTP-Alt''), (8443, ''HTTPS-Alt''),
     (27017, ''MongoDB''), (1433, ''MSSQL''), (1521, ''Oracle'')]"

definition identify_service_by_port_windows :: "nat \<Rightarrow> string" where
  "identify_service_by_port_windows port =
     (case map_of well_known_ports port of
        Some label \<Rightarrow> label
      | None \<Rightarrow> ''Port-'' @ str_nat port)"

text \<open>
  \<open>int(s)\<close> on the text of a port. Every string the program passes to \<open>int\<close> is the
  part of an \<open>ip:port\<close> rendering after a separator: it is either the decimal digits of
  the port or it still contains a colon, and on the latter \<open>int\<close> raises \<open>ValueError\<close>
  (\<open>None\<close>). Signs, blanks and underscores, which \<open>int\<close> also reads, do not occur.
\<close>

fun position_in :: "char \<Rightarrow> string \<Rightarrow> nat option" where
  "position_in c [] = None"
| "position_in c (d # ds) = (if c = d then Some 0 else map_option Suc (position_in c ds))"

definition digit_val :: "char \<Rightarrow> nat option" where
  "digit_val c = position_in c ''0123456789''"

fun parse_digits :: "nat \<Rightarrow> string \<Rightarrow> nat option" where
  "parse_digits acc [] = Some acc"
| "parse_digits acc (c # cs) =
     (case digit_val c of
        None \<Rightarrow> None
      | Some d \<Rightarrow> parse_digits (10 * acc + d) cs)"

definition py_int :: "string \<Rightarrow> nat option" where
  "py_int s = (if s = [] then None else parse_digits 0 s)"

text \<open>\<open>s.split(sep)\<close> for a one-character separator: every occurrence splits.\<close>

fun py_split :: "char \<Rightarrow> string \<Rightarrow> string list" where
  "py_split sep [] = [[]]"
| "py_split sep (c # cs) =
     (if c = sep then [] # py_split sep cs
      else (case py_split sep cs of
              [] \<Rightarrow> [[c]]
            | w # ws \<Rightarrow> (c # w) # ws))"

text \<open>
  \<open>s.rsplit(sep, 1)\<close> for a non-empty separator: \<open>Some (a, b)\<close> when \<open>sep\<close> occurs, split
  at its last occurrence, and \<open>None\<close> for the one-element list when it does not.
  \<open>split_first\<close> splits at the first occurrence; the last occurrence in \<open>s\<close> is the first
  one in the reversed string.
\<close>

fun split_first :: "string \<Rightarrow> string \<Rightarrow> (string \<times> string) option" where
  "split_first sep [] = None"
| "split_first sep (c # cs) =
     (if prefix sep (c # cs) then Some ([], drop (length sep) (c # cs))
      else (case split_first sep cs of
              None \<Rightarrow> None
            | Some (a, b) \<Rightarrow> Some (c # a, b)))"

definition rsplit1 :: "string \<Rightarrow> string \<Rightarrow> (string \<times> string) option" where
  "rsplit1 sep s =
     (case split_first (rev sep) (rev s) of
        None \<Rightarrow> None
      | Some (a, b) \<Rightarrow> Some (rev b, rev a))"

section \<open>Facts: sockets and processes\<close>

text \<open>
  The facts that \<open>psutil\<close> hands to the program: a socket (\<open>sconn\<close>) and the process
  table. The program reads the socket kind in two ways, by comparison with
  \<open>socket.SOCK_STREAM\<close> (\<open>c_type\<close>) and through \<open>str(conn.type)\<close>, whose text depends
  on the interpreter (\<open>SocketKind.SOCK_STREAM\<close> before Python 3.11, \<open>1\<close> from then
  on): \<open>c_type_str\<close> is that text as the running interpreter gives it, as \<open>c_family\<close>
  is the text of \<open>str(conn.family)\<close>. A lookup that raises \<open>NoSuchProcess\<close> or \<open>AccessDenied\<close> at any of
  \<open>Process(pid)\<close>, \<open>name()\<close>, \<open>username()\<close>, \<open>cmdline()\<close> is \<open>None\<close>: the handler
  resets whatever the \<open>try\<close> body had stored, so the point of failure is not observable.
\<close>

datatype exn = AttributeError | ValueError | IndexError

datatype sock_type = SOCK_STREAM | SOCK_DGRAM

datatype protocol = TCP | UDP

record addr =
  addr_ip :: string
  addr_port :: nat

record sconn =
  c_fd :: int
  c_family :: string
  c_type :: sock_type
  c_type_str :: string
  c_laddr :: "addr option"
  c_raddr :: "addr option"
  c_status :: string
  c_pid :: "nat option"

record process =
  p_name :: string
  p_username :: string
  p_cmdline :: string

type_synonym process_table = "nat \<Rightarrow> process option"

text \<open>
  The \<open>conn_info\<close> dictionary. The three process keys are only ever read with
  \<open>.get\<close>, so an absent key and a \<open>None\<close> value are both \<open>None\<close>.
\<close>

record conn_info =
  ci_fd :: int
  ci_family :: string
  ci_type :: string
  local_address :: "string option"
  remote_address :: "string option"
  ci_status :: string
  ci_pid :: "nat option"
  process_name :: "string option"
  process_user :: "string option"
  process_cmdline :: "string option"

record service_info =
  si_port :: nat
  si_protocol :: protocol
  si_address :: string
  si_pid :: "nat option"
  si_process_name :: "string option"
  si_process_user :: "string option"
  si_process_cmdline :: "string option"

record port_service =
  ps_service :: string
  ps_pid :: "nat option"

text \<open>
  The three dictionaries of \<open>self\<close>. Python dictionaries keep insertion order and the
  program iterates over them, so they are association lists: \<open>AList.update\<close> replaces the
  value of a present key in place and puts a new key last.
\<close>

record inventory_state =
  service_port_map :: "(string \<times> nat list) list"
  port_service_map :: "(nat \<times> port_service) list"
  process_connections :: "(nat \<times> conn_info list) list"

definition init_state :: inventory_state where
  "init_state = \<lparr>service_port_map = [], port_service_map = [], process_connections = []\<rparr>"

definition format_addr :: "addr \<Rightarrow> string" where
  "format_addr a = addr_ip a @ '':'' @ str_nat (addr_port a)"

text \<open>Appending to \<open>d[k]\<close> of a \<open>defaultdict(list)\<close>, or of a dictionary after
  \<open>if k not in d: d[k] = []\<close>.\<close>

definition dict_append :: "'k \<Rightarrow> 'v \<Rightarrow> ('k \<times> 'v list) list \<Rightarrow> ('k \<times> 'v list) list" where
  "dict_append k v d =
     AList.update k ((case map_of d k of None \<Rightarrow> [] | Some vs \<Rightarrow> vs) @ [v]) d"

text \<open>\<open>if conn.pid:\<close> followed by the lookup; pid \<open>None\<close> and pid \<open>0\<close> are falsy.\<close>

definition owner :: "process_table \<Rightarrow> sconn \<Rightarrow> (nat \<times> process) option" where
  "owner lookup c =
     (case c_pid c of
        None \<Rightarrow> None
      | Some pid \<Rightarrow>
          if pid = 0 then None
          else (case lookup pid of None \<Rightarrow> None | Some p \<Rightarrow> Some (pid, p)))"

definition mk_conn_info :: "process_table \<Rightarrow> sconn \<Rightarrow> conn_info" where
  "mk_conn_info lookup c =
     (let found = owner lookup c in
      \<lparr>ci_fd = c_fd c, ci_family = c_family c, ci_type = c_type_str c,
       local_address = map_option format_addr (c_laddr c),
       remote_address = map_option format_addr (c_raddr c),
       ci_status = c_status c, ci_pid = c_pid c,
       process_name = map_option (\<lambda>(pid, p). p_name p) found,
       process_user = map_option (\<lambda>(pid, p). p_username p) found,
       process_cmdline = map_option (\<lambda>(pid, p). p_cmdline p) found\<rparr>)"

text \<open>Truthiness of \<open>conn_info.get('process_name')\<close>.\<close>

definition truthy :: "string option \<Rightarrow> bool" where
  "truthy v = (case v of None \<Rightarrow> False | Some s \<Rightarrow> s \<noteq> [])"

section \<open>Port/service indexer: \<open>ServerInventory.get_network_info\<close>\<close>

record net_state =
  ns_self :: inventory_state
  ns_listening_ports :: "(nat \<times> service_info) list"
  ns_established :: "conn_info list"
  ns_connections :: "conn_info list"

definition mk_service_info :: "process_table \<Rightarrow> sconn \<Rightarrow> addr \<Rightarrow> service_info" where
  "mk_service_info lookup c la =
     (let ci = mk_conn_info lookup c in
      \<lparr>si_port = addr_port la,
       si_protocol = (if c_type c = SOCK_STREAM then TCP else UDP),
       si_address = addr_ip la,
       si_pid = c_pid c,
       si_process_name = process_name ci,
       si_process_user = process_user ci,
       si_process_cmdline = process_cmdline ci\<rparr>)"

text \<open>The indexing done for a \<open>LISTEN\<close> socket whose port is not yet in
  \<open>listening_ports\<close>.\<close>

definition index_port :: "conn_info \<Rightarrow> sconn \<Rightarrow> nat \<Rightarrow> inventory_state \<Rightarrow> inventory_state" where
  "index_port ci c port st =
     (if truthy (process_name ci) then
        (let name = (case process_name ci of Some n \<Rightarrow> n | None \<Rightarrow> [])
         in st\<lparr>port_service_map :=
                  AList.update port \<lparr>ps_service = name, ps_pid = c_pid c\<rparr> (port_service_map st),
                service_port_map := dict_append name port (service_port_map st)\<rparr>)
      else st)"

text \<open>One iteration of \<open>for conn in connections\<close>. \<open>conn.laddr.port\<close> on a socket
  without local address raises \<open>AttributeError\<close>, which no handler of the function
  catches.\<close>

definition net_step :: "process_table \<Rightarrow> sconn \<Rightarrow> net_state \<Rightarrow> exn + net_state" where
  "net_step lookup c s =
     (let ci = mk_conn_info lookup c;
          self1 = (case owner lookup c of
                     None \<Rightarrow> ns_self s
                   | Some (pid, p) \<Rightarrow>
                       (ns_self s)\<lparr>process_connections :=
                          dict_append pid ci (process_connections (ns_self s))\<rparr>)
      in if c_status c = ''LISTEN'' then
           (case c_laddr c of
              None \<Rightarrow> Inl AttributeError
            | Some la \<Rightarrow>
                if map_of (ns_listening_ports s) (addr_port la) = None then
                  Inr (s\<lparr>ns_self := index_port ci c (addr_port la) self1,
                         ns_listening_ports :=
                           AList.update (addr_port la) (mk_service_info lookup c la)
                             (ns_listening_ports s),
                         ns_connections := ns_connections s @ [ci]\<rparr>)
                else Inr (s\<lparr>ns_self := self1, ns_connections := ns_connections s @ [ci]\<rparr>))
         else if c_status c = ''ESTABLISHED'' then
           Inr (s\<lparr>ns_self := self1,
                  ns_established := ns_established s @ [ci],
                  ns_connections := ns_connections s @ [ci]\<rparr>)
         else Inr (s\<lparr>ns_self := self1, ns_connections := ns_connections s @ [ci]\<rparr>))"

fun net_loop :: "process_table \<Rightarrow> sconn list \<Rightarrow> net_state \<Rightarrow> exn + net_state" where
  "net_loop lookup [] s = Inr s"
| "net_loop lookup (c # cs) s =
     (case net_step lookup c s of
        Inl e \<Rightarrow> Inl e
      | Inr s' \<Rightarrow> net_loop lookup cs s')"

text \<open>The network section, restricted to the keys that come from sockets (the
  interface and counter keys are filled from other facts).\<close>

record network_info =
  connections :: "conn_info list"
  listening_ports :: "service_info list"
  established_connections :: "conn_info list"

text \<open>
  \<open>get_network_info\<close>. The enumeration \<open>psutil.net_connections\<close> either raises
  \<open>AccessDenied\<close>/\<open>PermissionError\<close> (\<open>None\<close>: a warning is printed and the three keys
  keep their initial empty lists) or returns the sockets. Python's \<open>sorted\<close> is stable,
  as \<open>sort_key\<close> is.
\<close>

definition get_network_info ::
  "process_table \<Rightarrow> sconn list option \<Rightarrow> inventory_state \<Rightarrow> exn + (network_info \<times> inventory_state)" where
  "get_network_info lookup net_connections st =
     (case net_connections of
        None \<Rightarrow>
          Inr (\<lparr>connections = [], listening_ports = [], established_connections = []\<rparr>, st)
      | Some conns \<Rightarrow>
          (case net_loop lookup conns
                  \<lparr>ns_self = st, ns_listening_ports = [], ns_established = [], ns_connections = []\<rparr> of
             Inl e \<Rightarrow> Inl e
           | Inr s \<Rightarrow>
               Inr (\<lparr>connections = ns_connections s,
                     listening_ports = sort_key si_port (map snd (ns_listening_ports s)),
                     established_connections = ns_established s\<rparr>,
                    ns_self s)))"

section \<open>Communication grapher: \<open>ServerInventory.get_application_communication_map\<close>\<close>

datatype conn_kind = Local | External

record connection_detail =
  cd_remote_host :: string
  cd_remote_port :: nat
  cd_local_port :: "string option"
  cd_protocol :: protocol
  cd_connection_type :: conn_kind
  cd_target_service :: "string option"
  cd_service_name :: "string option"

record process_entry =
  pe_pid :: nat
  pe_cmdline :: string
  local_connections :: "connection_detail list"
  external_connections :: "connection_detail list"

record service_client =
  client :: string
  sc_client_pid :: nat
  sc_port :: nat

record matrix_entry =
  source_process :: string
  source_pid :: nat
  target_service :: "string option"
  target_host :: "string option"
  target_port :: nat
  connection_type :: conn_kind
  cm_protocol :: protocol
  likely_service :: "string option"

record comm_map =
  process_to_service :: "(string \<times> process_entry) list"
  service_clients :: "(string \<times> service_client list) list"
  communication_matrix :: "matrix_entry list"

definition empty_comm_map :: comm_map where
  "empty_comm_map = \<lparr>process_to_service = [], service_clients = [], communication_matrix = []\<rparr>"

text \<open>The test \<open>remote_ip in ['127.0.0.1', '::1', 'localhost'] or
  remote_ip.startswith('127.')\<close>.\<close>

definition grapher_is_local :: "string \<Rightarrow> bool" where
  "grapher_is_local remote_ip =
     (remote_ip \<in> set [''127.0.0.1'', ''::1'', ''localhost''] \<or> prefix ''127.'' remote_ip)"

text \<open>\<open>remote_ip, remote_port = conn['remote_address'].split(':')\<close> and
  \<open>int(remote_port)\<close>: anything but two parts raises \<open>ValueError\<close> at the unpacking.\<close>

definition grapher_parse_remote :: "string \<Rightarrow> exn + (string \<times> nat)" where
  "grapher_parse_remote remote_addr =
     (case py_split CHR '':'' remote_addr of
        [remote_ip, remote_port] \<Rightarrow>
          (case py_int remote_port of
             None \<Rightarrow> Inl ValueError
           | Some n \<Rightarrow> Inr (remote_ip, n))
      | _ \<Rightarrow> Inl ValueError)"

text \<open>\<open>conn['local_address'].split(':')[1] if conn['local_address'] else None\<close>.\<close>

definition grapher_local_port :: "string option \<Rightarrow> exn + string option" where
  "grapher_local_port la =
     (case la of
        None \<Rightarrow> Inr None
      | Some s \<Rightarrow>
          if s = [] then Inr None
          else (case py_split CHR '':'' s of
                  a # b # rest \<Rightarrow> Inr (Some b)
                | _ \<Rightarrow> Inl IndexError))"

definition target_service_of :: "(nat \<times> port_service) list \<Rightarrow> nat \<Rightarrow> string" where
  "target_service_of psm remote_port =
     (case map_of psm remote_port of
        None \<Rightarrow> ''unknown-port-'' @ str_nat remote_port
      | Some info \<Rightarrow> ps_service info)"

definition add_local_connection :: "string \<Rightarrow> connection_detail \<Rightarrow> comm_map \<Rightarrow> comm_map" where
  "add_local_connection proc_name d m =
     m\<lparr>process_to_service :=
         (case map_of (process_to_service m) proc_name of
            None \<Rightarrow> process_to_service m
          | Some e \<Rightarrow>
              AList.update proc_name (e\<lparr>local_connections := local_connections e @ [d]\<rparr>)
                (process_to_service m))\<rparr>"

definition add_external_connection :: "string \<Rightarrow> connection_detail \<Rightarrow> comm_map \<Rightarrow> comm_map" where
  "add_external_connection proc_name d m =
     m\<lparr>process_to_service :=
         (case map_of (process_to_service m) proc_name of
            None \<Rightarrow> process_to_service m
          | Some e \<Rightarrow>
              AList.update proc_name (e\<lparr>external_connections := external_connections e @ [d]\<rparr>)
                (process_to_service m))\<rparr>"

text \<open>Track service clients: the key is created when missing, and the client is
  appended unless an entry of that client name is already there.\<close>

definition track_service_client ::
  "string \<Rightarrow> string \<Rightarrow> nat \<Rightarrow> nat \<Rightarrow> (string \<times> service_client list) list
     \<Rightarrow> (string \<times> service_client list) list" where
  "track_service_client target proc_name pid remote_port sc =
     (let cur = (case map_of sc target of None \<Rightarrow> [] | Some cs \<Rightarrow> cs)
      in if proc_name \<in> set (map client cur) then AList.update target cur sc
         else AList.update target
                (cur @ [\<lparr>client = proc_name, sc_client_pid = pid, sc_port = remote_port\<rparr>]) sc)"

text \<open>The body of \<open>for conn in connections\<close>. An exception leaves the map as it was
  before the connection: both raising statements come before the first update. The
  protocol is \<open>'TCP' if 'STREAM' in conn['type'] else 'UDP'\<close>, a test on the rendered
  socket kind.\<close>

definition comm_conn ::
  "(nat \<times> port_service) list \<Rightarrow> string \<Rightarrow> nat \<Rightarrow> conn_info \<Rightarrow> comm_map \<Rightarrow> exn + comm_map" where
  "comm_conn psm proc_name pid conn m =
     (if ci_status conn = ''ESTABLISHED'' \<and> truthy (remote_address conn) then
        (case grapher_parse_remote (case remote_address conn of Some a \<Rightarrow> a | None \<Rightarrow> []) of
           Inl e \<Rightarrow> Inl e
         | Inr (remote_ip, remote_port) \<Rightarrow>
             (case grapher_local_port (local_address conn) of
                Inl e \<Rightarrow> Inl e
              | Inr lport \<Rightarrow>
                  (let proto = (if sublist ''STREAM'' (ci_type conn) then TCP else UDP) in
                   if grapher_is_local remote_ip then
                     (let target = target_service_of psm remote_port;
                          d = \<lparr>cd_remote_host = remote_ip, cd_remote_port = remote_port,
                               cd_local_port = lport, cd_protocol = proto,
                               cd_connection_type = Local,
                               cd_target_service = Some target, cd_service_name = None\<rparr>;
                          m1 = add_local_connection proc_name d m;
                          m2 = m1\<lparr>service_clients :=
                                    track_service_client target proc_name pid remote_port
                                      (service_clients m1)\<rparr>
                      in Inr (m2\<lparr>communication_matrix := communication_matrix m2 @
                                [\<lparr>source_process = proc_name, source_pid = pid,
                                  target_service = Some target, target_host = None,
                                  target_port = remote_port, connection_type = Local,
                                  cm_protocol = proto, likely_service = None\<rparr>]\<rparr>))
                   else
                     (let label = identify_service_by_port_linux remote_port;
                          d = \<lparr>cd_remote_host = remote_ip, cd_remote_port = remote_port,
                               cd_local_port = lport, cd_protocol = proto,
                               cd_connection_type = External,
                               cd_target_service = None, cd_service_name = Some label\<rparr>;
                          m1 = add_external_connection proc_name d m
                      in Inr (m1\<lparr>communication_matrix := communication_matrix m1 @
                                [\<lparr>source_process = proc_name, source_pid = pid,
                                  target_service = None, target_host = Some remote_ip,
                                  target_port = remote_port, connection_type = External,
                                  cm_protocol = proto, likely_service = Some label\<rparr>]\<rparr>)))))
      else Inr m)"

text \<open>The result of a loop that an exception may leave: \<open>Inl\<close> carries the exception
  and the map as it stood, which is what the handler's \<open>return comm_map\<close> gives back.\<close>

fun comm_conns ::
  "(nat \<times> port_service) list \<Rightarrow> string \<Rightarrow> nat \<Rightarrow> conn_info list \<Rightarrow> comm_map
     \<Rightarrow> (exn \<times> comm_map) + comm_map" where
  "comm_conns psm proc_name pid [] m = Inr m"
| "comm_conns psm proc_name pid (conn # conns) m =
     (case comm_conn psm proc_name pid conn m of
        Inl e \<Rightarrow> Inl (e, m)
      | Inr m' \<Rightarrow> comm_conns psm proc_name pid conns m')"

text \<open>The body of \<open>for pid, connections in self.process_connections.items()\<close>; a
  process that no longer resolves is skipped.\<close>

definition comm_process ::
  "process_table \<Rightarrow> (nat \<times> port_service) list \<Rightarrow> nat \<Rightarrow> conn_info list \<Rightarrow> comm_map
     \<Rightarrow> (exn \<times> comm_map) + comm_map" where
  "comm_process lookup psm pid conns m =
     (case lookup pid of
        None \<Rightarrow> Inr m
      | Some p \<Rightarrow>
          (let m1 = (if map_of (process_to_service m) (p_name p) = None then
                       m\<lparr>process_to_service :=
                           AList.update (p_name p)
                             \<lparr>pe_pid = pid, pe_cmdline = p_cmdline p,
                              local_connections = [], external_connections = []\<rparr>
                             (process_to_service m)\<rparr>
                     else m)
           in comm_conns psm (p_name p) pid conns m1))"

fun comm_loop ::
  "process_table \<Rightarrow> (nat \<times> port_service) list \<Rightarrow> (nat \<times> conn_info list) list \<Rightarrow> comm_map
     \<Rightarrow> (exn \<times> comm_map) + comm_map" where
  "comm_loop lookup psm [] m = Inr m"
| "comm_loop lookup psm ((pid, conns) # rest) m =
     (case comm_process lookup psm pid conns m of
        Inl em \<Rightarrow> Inl em
      | Inr m' \<Rightarrow> comm_loop lookup psm rest m')"

text \<open>\<open>get_application_communication_map\<close>: the outer handler prints the exception
  and the function returns the map built so far.\<close>

definition get_application_communication_map :: "process_table \<Rightarrow> inventory_state \<Rightarrow> comm_map" where
  "get_application_communication_map lookup st =
     (case comm_loop lookup (port_service_map st) (process_connections st) empty_comm_map of
        Inl (e, m) \<Rightarrow> m
      | Inr m \<Rightarrow> m)"

section \<open>Dependency graph builder: \<open>ServerInventory.get_port_dependencies\<close>\<close>

record client_info =
  ci_client_process :: string
  ci_client_pid :: nat

record listening_service =
  service :: string
  ls_pid :: "nat option"
  well_known_service :: string
  clients :: "client_info list"

record dependency_edge =
  client_process :: string
  client_pid :: nat
  server_port :: nat
  server_service :: string
  dependency_type :: string

record port_usage =
  pu_service :: string
  well_known_name :: string
  client_count :: nat
  pu_clients :: "string list"

record port_deps =
  listening_services :: "(nat \<times> listening_service) list"
  port_usage_map :: "(nat \<times> port_usage) list"
  dependency_graph :: "dependency_edge list"

text \<open>
  The address parsing of the builder. \<open>conn_info\<close> always holds the rendered string, so
  the \<open>isinstance(remote_addr, tuple)\<close> branch is never taken. Unpacking a one-element
  \<open>rsplit\<close> result raises \<open>ValueError\<close>, as \<open>int\<close> does.
\<close>

definition deps_parse_remote :: "string \<Rightarrow> exn + (string \<times> nat)" where
  "deps_parse_remote remote_addr =
     (case (if prefix ''['' remote_addr then rsplit1 '']:'' (drop 1 remote_addr)
            else rsplit1 '':'' remote_addr) of
        None \<Rightarrow> Inl ValueError
      | Some (remote_ip, remote_port) \<Rightarrow>
          (case py_int remote_port of
             None \<Rightarrow> Inl ValueError
           | Some n \<Rightarrow> Inr (remote_ip, n)))"

text \<open>The test \<open>remote_ip == '::1' or remote_ip.startswith('127.')\<close>.\<close>

definition deps_is_local :: "string \<Rightarrow> bool" where
  "deps_is_local remote_ip = (remote_ip = ''::1'' \<or> prefix ''127.'' remote_ip)"

definition initial_listening_services ::
  "(nat \<times> port_service) list \<Rightarrow> (nat \<times> listening_service) list" where
  "initial_listening_services psm =
     map (\<lambda>(port, info).
            (port, \<lparr>service = ps_service info, ls_pid = ps_pid info,
                    well_known_service = identify_service_by_port_linux port,
                    clients = []\<rparr>)) psm"

definition deps_conn ::
  "string \<Rightarrow> nat \<Rightarrow> conn_info \<Rightarrow> port_deps \<Rightarrow> exn + port_deps" where
  "deps_conn proc_name pid conn d =
     (if ci_status conn \<noteq> ''ESTABLISHED'' then Inr d
      else if \<not> truthy (remote_address conn) then Inr d
      else
        (case deps_parse_remote (case remote_address conn of Some a \<Rightarrow> a | None \<Rightarrow> []) of
           Inl e \<Rightarrow> Inl e
         | Inr (remote_ip, remote_port) \<Rightarrow>
             if deps_is_local remote_ip then
               (case map_of (listening_services d) remote_port of
                  None \<Rightarrow> Inr d
                | Some ls \<Rightarrow>
                    (let cinfo = \<lparr>ci_client_process = proc_name, ci_client_pid = pid\<rparr>;
                         ls' = (if cinfo \<in> set (clients ls) then ls
                                else ls\<lparr>clients := clients ls @ [cinfo]\<rparr>)
                     in Inr (d\<lparr>listening_services :=
                                 AList.update remote_port ls' (listening_services d),
                               dependency_graph := dependency_graph d @
                                 [\<lparr>client_process = proc_name, client_pid = pid,
                                   server_port = remote_port, server_service = service ls',
                                   dependency_type = ''port-level''\<rparr>]\<rparr>)))
             else Inr d))"

fun deps_conns :: "string \<Rightarrow> nat \<Rightarrow> conn_info list \<Rightarrow> port_deps \<Rightarrow> exn + port_deps" where
  "deps_conns proc_name pid [] d = Inr d"
| "deps_conns proc_name pid (conn # conns) d =
     (case deps_conn proc_name pid conn d of
        Inl e \<Rightarrow> Inl e
      | Inr d' \<Rightarrow> deps_conns proc_name pid conns d')"

fun deps_loop ::
  "process_table \<Rightarrow> (nat \<times> conn_info list) list \<Rightarrow> port_deps \<Rightarrow> exn + port_deps" where
  "deps_loop lookup [] d = Inr d"
| "deps_loop lookup ((pid, conns) # rest) d =
     (case lookup pid of
        None \<Rightarrow> deps_loop lookup rest d
      | Some p \<Rightarrow>
          (case deps_conns (p_name p) pid conns d of
             Inl e \<Rightarrow> Inl e
           | Inr d' \<Rightarrow> deps_loop lookup rest d'))"

definition port_usage_summary ::
  "(nat \<times> listening_service) list \<Rightarrow> (nat \<times> port_usage) list" where
  "port_usage_summary lss =
     map (\<lambda>(port, info).
            (port, \<lparr>pu_service = service info, well_known_name = well_known_service info,
                    client_count = length (clients info),
                    pu_clients = map ci_client_process (clients info)\<rparr>)) lss"

text \<open>\<open>get_port_dependencies\<close>. Its only handler catches the two process-lookup
  exceptions, so a \<open>ValueError\<close> of the address parsing leaves the function.\<close>

definition get_port_dependencies :: "process_table \<Rightarrow> inventory_state \<Rightarrow> exn + port_deps" where
  "get_port_dependencies lookup st =
     (case deps_loop lookup (process_connections st)
             \<lparr>listening_services = initial_listening_services (port_service_map st),
              port_usage_map = [], dependency_graph = []\<rparr> of
        Inl e \<Rightarrow> Inl e
      | Inr d \<Rightarrow> Inr (d\<lparr>port_usage_map := port_usage_summary (listening_services d)\<rparr>))"

section \<open>The correlation pipeline of \<open>collect_all\<close>\<close>

text \<open>The three stages in the order \<open>collect_all\<close> runs them on a fresh
  \<open>ServerInventory\<close>, all reading the same process table.\<close>

record snapshot =
  network :: network_info
  application_communication :: comm_map
  port_dependencies :: port_deps

definition correlate :: "process_table \<Rightarrow> sconn list option \<Rightarrow> exn + snapshot" where
  "correlate lookup net_connections =
     (case get_network_info lookup net_connections init_state of
        Inl e \<Rightarrow> Inl e
      | Inr (ni, st) \<Rightarrow>
          (let cm = get_application_communication_map lookup st in
           case get_port_dependencies lookup st of
             Inl e \<Rightarrow> Inl e
           | Inr pd \<Rightarrow>
               Inr \<lparr>network = ni, application_communication = cm, port_dependencies = pd\<rparr>))"

section \<open>Notions for stating the properties\<close>

text \<open>A socket fact is a \<open>LISTEN\<close> fact for port \<open>p\<close>.\<close>

definition listens_on :: "nat \<Rightarrow> sconn \<Rightarrow> bool" where
  "listens_on p c = (c_status c = ''LISTEN'' \<and> map_option addr_port (c_laddr c) = Some p)"

text \<open>The \<open>service_info\<close> entry and the \<open>port_service_map\<close> entry that a \<open>LISTEN\<close>
  fact gives when it is the one taken for its port.\<close>

definition binding_of :: "process_table \<Rightarrow> sconn \<Rightarrow> service_info option" where
  "binding_of lookup c = map_option (mk_service_info lookup c) (c_laddr c)"

definition index_entry :: "process_table \<Rightarrow> sconn \<Rightarrow> port_service option" where
  "index_entry lookup c =
     (case owner lookup c of
        None \<Rightarrow> None
      | Some (pid, p) \<Rightarrow>
          if p_name p = [] then None else Some \<lparr>ps_service = p_name p, ps_pid = c_pid c\<rparr>)"

text \<open>Loop invariants of \<open>get_network_info\<close>: the keys of \<open>listening_ports\<close> are
  distinct and each entry carries its key as port; every port listed in
  \<open>service_port_map\<close> is a key of \<open>port_service_map\<close>.\<close>

definition lp_ok :: "(nat \<times> service_info) list \<Rightarrow> bool" where
  "lp_ok lp = (distinct (map fst lp) \<and> (\<forall>(k, v) \<in> set lp. si_port v = k))"

definition spm_ok :: "inventory_state \<Rightarrow> bool" where
  "spm_ok st = (\<forall>(name, ports) \<in> set (service_port_map st). \<forall>q \<in> set ports. map_of (port_service_map st) q \<noteq> None)"

text \<open>
  What the dependency builder appends for one connection of a process, as a list of
  at most one edge, and the edges of a whole run: one for every \<open>ESTABLISHED\<close>
  connection to a loopback address whose remote port is a key of the port index, in
  the order of \<open>process_connections\<close>, with no deduplication.
\<close>

definition dependency_of ::
  "(nat \<times> port_service) list \<Rightarrow> string \<Rightarrow> nat \<Rightarrow> conn_info \<Rightarrow> dependency_edge list" where
  "dependency_of psm proc_name pid conn =
     (if ci_status conn = ''ESTABLISHED'' \<and> truthy (remote_address conn) then
        (case deps_parse_remote (case remote_address conn of Some a \<Rightarrow> a | None \<Rightarrow> []) of
           Inl e \<Rightarrow> []
         | Inr (remote_ip, remote_port) \<Rightarrow>
             if deps_is_local remote_ip then
               (case map_of psm remote_port of
                  None \<Rightarrow> []
                | Some info \<Rightarrow>
                    [\<lparr>client_process = proc_name, client_pid = pid, server_port = remote_port,
                      server_service = ps_service info, dependency_type = ''port-level''\<rparr>])
             else [])
      else [])"

definition edges_per_connection ::
  "process_table \<Rightarrow> (nat \<times> port_service) list \<Rightarrow> (nat \<times> conn_info list) list \<Rightarrow> dependency_edge list" where
  "edges_per_connection lookup psm pcs =
     concat (map (\<lambda>(pid, conns).
                    case lookup pid of
                      None \<Rightarrow> []
                    | Some p \<Rightarrow> concat (map (dependency_of psm (p_name p) pid) conns)) pcs)"

text \<open>
  The connections of a snapshot, each with the pid that holds it, in the order in which
  the builder and the grapher visit them. \<open>dependency_local q\<close> holds for a connection
  that the builder takes as a loopback connection to port \<open>q\<close>: it is \<open>ESTABLISHED\<close>, its
  remote address parses at the last colon, and the host passes the builder's loopback
  test. \<open>grapher_local q\<close> is the same for the grapher, which splits at every colon and
  has its own loopback test. A client named \<open>name\<close> is a connection of a pid that the
  process table resolves to that name.
\<close>

definition connections_of :: "(nat \<times> conn_info list) list \<Rightarrow> (nat \<times> conn_info) list" where
  "connections_of pcs = concat (map (\<lambda>(pid, conns). map (Pair pid) conns) pcs)"

definition dependency_local :: "nat \<Rightarrow> conn_info \<Rightarrow> bool" where
  "dependency_local q conn =
     (ci_status conn = ''ESTABLISHED'' \<and> truthy (remote_address conn) \<and>
      (case deps_parse_remote (case remote_address conn of Some a \<Rightarrow> a | None \<Rightarrow> []) of
         Inl e \<Rightarrow> False
       | Inr (remote_ip, remote_port) \<Rightarrow> deps_is_local remote_ip \<and> remote_port = q))"

definition grapher_local :: "nat \<Rightarrow> conn_info \<Rightarrow> bool" where
  "grapher_local q conn =
     (ci_status conn = ''ESTABLISHED'' \<and> truthy (remote_address conn) \<and>
      (case grapher_parse_remote (case remote_address conn of Some a \<Rightarrow> a | None \<Rightarrow> []) of
         Inl e \<Rightarrow> False
       | Inr (remote_ip, remote_port) \<Rightarrow> grapher_is_local remote_ip \<and> remote_port = q))"

definition dependency_client :: "process_table \<Rightarrow> string \<Rightarrow> nat \<Rightarrow> nat \<times> conn_info \<Rightarrow> bool" where
  "dependency_client lookup name q pc =
     (map_option p_name (lookup (fst pc)) = Some name \<and> dependency_local q (snd pc))"

definition grapher_client :: "process_table \<Rightarrow> string \<Rightarrow> nat \<Rightarrow> nat \<times> conn_info \<Rightarrow> bool" where
  "grapher_client lookup name q pc =
     (map_option p_name (lookup (fst pc)) = Some name \<and> grapher_local q (snd pc))"

text \<open>The grapher has visited every connection: no exception of its address parsing
  has cut the loop short.\<close>

definition grapher_completes :: "process_table \<Rightarrow> inventory_state \<Rightarrow> bool" where
  "grapher_completes lookup st =
     (\<not> isl (comm_loop lookup (port_service_map st) (process_connections st) empty_comm_map))"

text \<open>The client entry that an edge stands for, and two more loop invariants: the
  \<open>clients\<close> list of a port holds the clients of the edges to that port and nothing else;
  the matrix has a local entry from a process name to a service label.\<close>

definition client_of :: "dependency_edge \<Rightarrow> client_info" where
  "client_of e = \<lparr>ci_client_process = client_process e, ci_client_pid = client_pid e\<rparr>"

definition clients_match :: "port_deps \<Rightarrow> bool" where
  "clients_match d =
     (\<forall>q ls. map_of (listening_services d) q = Some ls \<longrightarrow>
        set (clients ls) = client_of ` {e \<in> set (dependency_graph d). server_port e = q})"

definition has_local_entry :: "comm_map \<Rightarrow> string \<Rightarrow> string \<Rightarrow> bool" where
  "has_local_entry m n t =
     (\<exists>e \<in> set (communication_matrix m).
        connection_type e = Local \<and> source_process e = n \<and> target_service e = Some t)"

text \<open>Loop invariants of the dependency builder and of the grapher: the services of
  \<open>listening_services\<close> are those of the port index; no \<open>clients\<close> list repeats a
  (name, pid) pair; no \<open>service_clients\<close> list repeats a client name, and the source of
  every local entry of the matrix is a client of its target service.\<close>

definition svc_agree :: "(nat \<times> port_service) list \<Rightarrow> (nat \<times> listening_service) list \<Rightarrow> bool" where
  "svc_agree psm lss =
     (\<forall>port. map_option service (map_of lss port) = map_option ps_service (map_of psm port))"

definition clients_ok :: "(nat \<times> listening_service) list \<Rightarrow> bool" where
  "clients_ok lss = (\<forall>(port, ls) \<in> set lss. distinct (clients ls))"

definition sc_ok :: "comm_map \<Rightarrow> bool" where
  "sc_ok m =
     ((\<forall>s cs. map_of (service_clients m) s = Some cs \<longrightarrow> distinct (map client cs)) \<and>
      (\<forall>e \<in> set (communication_matrix m). connection_type e = Local \<longrightarrow>
         (\<exists>s cs. target_service e = Some s \<and> map_of (service_clients m) s = Some cs \<and>
                 source_process e \<in> client ` set cs)))"

section \<open>Example facts\<close>

text \<open>A process table and two kinds of socket fact, for the concrete runs below.\<close>

definition ex_procs :: process_table where
  "ex_procs pid =
     (if pid = 10 then Some \<lparr>p_name = ''postgres'', p_username = ''postgres'', p_cmdline = ''postgres -D /var/lib/pgsql''\<rparr>
      else if pid = 20 then Some \<lparr>p_name = ''app'', p_username = ''www'', p_cmdline = ''app --serve''\<rparr>
      else if pid = 21 then Some \<lparr>p_name = ''app'', p_username = ''www'', p_cmdline = ''app --worker''\<rparr>
      else if pid = 30 then Some \<lparr>p_name = ''nginx'', p_username = ''root'', p_cmdline = ''nginx''\<rparr>
      else if pid = 31 then Some \<lparr>p_name = ''haproxy'', p_username = ''root'', p_cmdline = ''haproxy''\<rparr>
      else None)"

definition listener :: "nat \<Rightarrow> nat \<Rightarrow> sconn" where
  "listener port pid =
     \<lparr>c_fd = 3, c_family = ''AddressFamily.AF_INET'', c_type = SOCK_STREAM, c_type_str = ''SocketKind.SOCK_STREAM'',
      c_laddr = Some \<lparr>addr_ip = ''0.0.0.0'', addr_port = port\<rparr>, c_raddr = None,
      c_status = ''LISTEN'', c_pid = Some pid\<rparr>"

definition client_conn :: "nat \<Rightarrow> nat \<Rightarrow> string \<Rightarrow> nat \<Rightarrow> sconn" where
  "client_conn pid lport rip rport =
     \<lparr>c_fd = 7, c_family = ''AddressFamily.AF_INET'', c_type = SOCK_STREAM, c_type_str = ''SocketKind.SOCK_STREAM'',
      c_laddr = Some \<lparr>addr_ip = ''127.0.0.1'', addr_port = lport\<rparr>,
      c_raddr = Some \<lparr>addr_ip = rip, addr_port = rport\<rparr>,
      c_status = ''ESTABLISHED'', c_pid = Some pid\<rparr>"

definition two_conn_facts :: "sconn list" where
  "two_conn_facts =
     [listener 5432 10, client_conn 20 40000 ''127.0.0.1'' 5432, client_conn 20 40001 ''127.0.0.1'' 5432]"

definition same_name_facts :: "sconn list" where
  "same_name_facts =
     [listener 5432 10, client_conn 20 40000 ''127.0.0.1'' 5432,
      client_conn 20 40001 ''127.0.0.1'' 5432, client_conn 21 40002 ''127.0.0.1'' 5432]"

definition same_name_state :: inventory_state where
  "same_name_state = snd (projr (get_network_info ex_procs (Some same_name_facts) init_state))"

definition v6_facts :: "sconn list" where
  "v6_facts = [listener 5432 10, client_conn 20 40000 ''::1'' 5432]"

definition v6_state :: inventory_state where
  "v6_state = snd (projr (get_network_info ex_procs (Some v6_facts) init_state))"

section \<open>Utilization log normalizer: values and text\<close>

text \<open>
  The collector returns a Python dictionary whose set of keys varies from run to run, so
  the result is an association list from key to a JSON-like value. Floating-point numbers
  stay abstract: the type \<open>'f\<close> and the operations the program applies to them
  (\<open>float(s)\<close> with the text of its \<open>ValueError\<close>, \<open>round(x, 2)\<close>,
  \<open>sum(xs) / len(xs)\<close>, \<open>min\<close>, \<open>max\<close>) are parameters of the model.
  Writing to the console is assumed to succeed, with one exception that is named below.
\<close>

datatype 'f pyval =
  PNone | PBool bool | PStr string | PInt int | PFloat 'f
  | PList "'f pyval list" | PDict "(string \<times> 'f pyval) list"

type_synonym 'f pydict = "(string \<times> 'f pyval) list"

record 'f float_ops =
  float_of :: "string \<Rightarrow> 'f option"
  float_error :: "string \<Rightarrow> string"
  round2 :: "'f \<Rightarrow> 'f"
  mean :: "'f list \<Rightarrow> 'f"
  minimum :: "'f list \<Rightarrow> 'f"
  maximum :: "'f list \<Rightarrow> 'f"

text \<open>\<open>d[key].append(v)\<close> for a key that holds a list.\<close>

definition list_append :: "string \<Rightarrow> 'f pyval \<Rightarrow> 'f pydict \<Rightarrow> 'f pydict" where
  "list_append key v d =
     (case map_of d key of
        Some (PList xs) \<Rightarrow> AList.update key (PList (xs @ [v])) d
      | _ \<Rightarrow> d)"

text \<open>
  Whitespace as \<open>str.strip()\<close> and \<open>str.split()\<close> see it in ASCII text: the blank and
  the control characters 9 to 13 and 28 to 31. \<open>py_words\<close> is \<open>s.split()\<close>, the maximal
  runs of other characters.
\<close>

definition is_space :: "char \<Rightarrow> bool" where
  "is_space c =
     (c \<in> set [CHR '' '', CHR 0x09, CHR 0x0A, CHR 0x0B, CHR 0x0C, CHR 0x0D,
               CHR 0x1C, CHR 0x1D, CHR 0x1E, CHR 0x1F])"

definition strip_chars :: "(char \<Rightarrow> bool) \<Rightarrow> string \<Rightarrow> string" where
  "strip_chars P s = rev (dropWhile P (rev (dropWhile P s)))"

definition py_strip :: "string \<Rightarrow> string" where
  "py_strip s = strip_chars is_space s"

fun split_when :: "(char \<Rightarrow> bool) \<Rightarrow> string \<Rightarrow> string list" where
  "split_when P [] = [[]]"
| "split_when P (c # cs) =
     (if P c then [] # split_when P cs
      else (case split_when P cs of
              [] \<Rightarrow> [[c]]
            | w # ws \<Rightarrow> (c # w) # ws))"

definition py_words :: "string \<Rightarrow> string list" where
  "py_words s = filter (\<lambda>w. w \<noteq> []) (split_when is_space s)"

text \<open>\<open>float\<close> applied to a run of fields from left to right: the first field that is
  not a number raises \<open>ValueError\<close> with its text.\<close>

fun float_all :: "'f float_ops \<Rightarrow> string list \<Rightarrow> string + 'f list" where
  "float_all fl [] = Inr []"
| "float_all fl (s # ss) =
     (case float_of fl s of
        None \<Rightarrow> Inl (float_error fl s)
      | Some x \<Rightarrow> (case float_all fl ss of Inl msg \<Rightarrow> Inl msg | Inr xs \<Rightarrow> Inr (x # xs)))"

definition initial_cpu_history :: "'f pydict" where
  "initial_cpu_history =
     [(''available'', PBool False), (''date'', PNone), (''average'', PDict []),
      (''hourly_data'', PList []), (''raw_output'', PNone), (''error'', PNone)]"

definition set_error :: "string \<Rightarrow> 'f pydict \<Rightarrow> 'f pydict" where
  "set_error msg h = AList.update ''error'' (PStr msg) h"

section \<open>Utilization log normalizer on Linux: \<open>ServerInventory.get_previous_day_cpu_utilization\<close>\<close>

text \<open>
  The environment of one call: whether \<open>rpm\<close> is on the path, yesterday's day of the
  month and date as text, which paths exist, and what \<open>sar -u -f path\<close> under its bound of
  30 seconds does: the program is missing (\<open>FileNotFoundError\<close>), the bound is exceeded
  (\<open>TimeoutExpired\<close>), another exception with its text, or an exit with return code,
  standard output and standard error.
\<close>

datatype sar_outcome =
  SarNotFound | SarTimeout | SarRaised string | SarExit int string string

record linux_env =
  has_rpm :: bool
  sa_file_day :: string
  yesterday_date :: string
  path_exists :: "string \<Rightarrow> bool"
  run_sar :: "string \<Rightarrow> sar_outcome"

definition sa_file_path :: "linux_env \<Rightarrow> string" where
  "sa_file_path env =
     (if has_rpm env then ''/var/log/sa/sa'' @ sa_file_day env
      else ''/var/log/sysstat/sa'' @ sa_file_day env)"

definition sar_fields :: "string list" where
  "sar_fields = [''user'', ''nice'', ''system'', ''iowait'', ''steal'', ''idle'']"

text \<open>The dictionary of a timestamped row. With the time in the second column and only
  eight fields the last index is out of range; that \<open>IndexError\<close>, like a \<open>ValueError\<close>
  of \<open>float\<close>, makes the row be skipped (\<open>None\<close>).\<close>

definition parse_data_line :: "'f float_ops \<Rightarrow> string list \<Rightarrow> 'f pydict option" where
  "parse_data_line fl parts =
     (let time_col = (if CHR '':'' \<in> set (parts ! 0) then 0 else 1 :: nat) in
      if length parts < time_col + 8 then None
      else (case float_all fl (take 6 (drop (time_col + 2) parts)) of
              Inl msg \<Rightarrow> None
            | Inr vs \<Rightarrow>
                Some ([(''time'', PStr (parts ! time_col)),
                       (''cpu'', PStr (parts ! (time_col + 1)))]
                      @ zip sar_fields (map PFloat vs))))"

text \<open>The loop over the lines of the report. A \<open>ValueError\<close> in the \<open>Average:\<close> row is
  not caught inside the loop: \<open>Inl\<close> carries its text and the dictionary as it stood.\<close>

fun sar_lines ::
  "'f float_ops \<Rightarrow> string list \<Rightarrow> 'f pydict \<Rightarrow> (string \<times> 'f pydict) + 'f pydict" where
  "sar_lines fl [] h = Inr h"
| "sar_lines fl (raw # rest) h =
     (let line = py_strip raw; parts = py_words line in
      if line = [] then sar_lines fl rest h
      else if prefix ''Average:'' line then
        (if length parts \<ge> 8 then
           (case float_all fl (take 6 (drop 2 parts)) of
              Inl msg \<Rightarrow> Inl (msg, h)
            | Inr vs \<Rightarrow>
                sar_lines fl rest
                  (AList.update ''average'' (PDict (zip sar_fields (map PFloat vs))) h))
         else sar_lines fl rest h)
      else if CHR '':'' \<in> set line \<and> \<not> prefix ''Linux'' line \<and> \<not> prefix ''Average'' line then
        (if length parts \<ge> 8 \<and> (CHR '':'' \<in> set (parts ! 0) \<or> CHR '':'' \<in> set (parts ! 1)) then
           (case parse_data_line fl parts of
              None \<Rightarrow> sar_lines fl rest h
            | Some d \<Rightarrow> sar_lines fl rest (list_append ''hourly_data'' (PDict d) h))
         else sar_lines fl rest h)
      else sar_lines fl rest h)"

definition get_previous_day_cpu_utilization_linux ::
  "'f float_ops \<Rightarrow> linux_env \<Rightarrow> 'f pydict" where
  "get_previous_day_cpu_utilization_linux fl env =
     (if \<not> path_exists env (sa_file_path env) then
        set_error (''Sysstat file not found: '' @ sa_file_path env) initial_cpu_history
      else
        (case run_sar env (sa_file_path env) of
           SarNotFound \<Rightarrow>
             set_error ''sar command not found. Install sysstat package.'' initial_cpu_history
         | SarTimeout \<Rightarrow> set_error ''sar command timed out'' initial_cpu_history
         | SarRaised msg \<Rightarrow>
             set_error (''Error collecting previous day CPU data: '' @ msg) initial_cpu_history
         | SarExit rc out err \<Rightarrow>
             if rc = 0 then
               (case sar_lines fl (py_split (CHR 0x0A) (py_strip out))
                       (AList.update ''raw_output'' (PStr out)
                          (AList.update ''date'' (PStr (yesterday_date env))
                             (AList.update ''available'' (PBool True) initial_cpu_history))) of
                  Inl (msg, h) \<Rightarrow> set_error (''Error collecting previous day CPU data: '' @ msg) h
                | Inr h \<Rightarrow> h)
             else set_error (''sar command failed: '' @ err) initial_cpu_history))"

section \<open>Utilization log normalizer on Windows: \<open>WindowsServerInventory.get_previous_day_cpu_utilization\<close>\<close>

text \<open>
  The environment of one call. A file under the log directory has its path and its age in
  days, \<open>None\<close> when reading the modification time raised. Reading a CSV file gives its
  rows or raises. \<open>relog\<close> under its bound of 60 seconds raises (\<open>TimeoutExpired\<close> and any
  other exception, with its text) or exits with a return code and standard error. The
  export it writes is read with \<open>csv.DictReader\<close>: a row is a dictionary from column name to
  field, the name \<open>None\<close> collecting surplus fields and the field \<open>None\<close> standing for a
  missing one. Removing the export can raise. The message that reports the number of
  parsed points contains a check mark, which a console with a legacy encoding refuses:
  \<open>report_print\<close> is the text of that exception, if any.
\<close>

record log_file =
  lf_path :: string
  lf_age_days :: "int option"

datatype relog_outcome = RelogRaised string | RelogExit int string

type_synonym export_row = "(string option \<times> string option) list"

record windows_env =
  w_yesterday_date :: string
  log_dir_exists :: bool
  log_dir_files :: "log_file list"
  read_csv :: "string \<Rightarrow> string + string list list"
  report_print :: "string option"
  run_relog :: "string \<Rightarrow> relog_outcome"
  export_exists :: bool
  read_export :: "string + export_row list"
  remove_export :: "string option"
  pm_exists :: bool
  pm_running :: bool

definition perf_log_dir :: string where
  "perf_log_dir =
     ''C:'' @ [CHR 0x5C] @ ''PerfLogs'' @ [CHR 0x5C] @ ''Admin'' @ [CHR 0x5C] @ ''SystemInventoryCPU''"

definition recent_files :: "string \<Rightarrow> log_file list \<Rightarrow> string list" where
  "recent_files ext fs =
     map lf_path
       (filter (\<lambda>f. (case lf_age_days f of None \<Rightarrow> False | Some d \<Rightarrow> d \<le> 2) \<and> suffix ext (lf_path f)) fs)"

definition is_timestamp_header :: "string \<Rightarrow> bool" where
  "is_timestamp_header s = (sublist ''Time'' s \<or> sublist ''PDH-CSV'' s)"

definition is_cpu_header :: "string \<Rightarrow> bool" where
  "is_cpu_header s = (sublist ''Processor Time'' s \<and> sublist ''_Total'' s)"

definition is_memory_header :: "string \<Rightarrow> bool" where
  "is_memory_header s = sublist ''Available MBytes'' s"

definition is_disk_header :: "string \<Rightarrow> bool" where
  "is_disk_header s = (sublist ''Disk Time'' s \<and> sublist ''_Total'' s)"

text \<open>One data point and the two accumulators \<open>cpu_values\<close> and \<open>hourly_data\<close>; the two
  copies of this code in the source differ only in how a field is fetched.\<close>

definition data_point ::
  "'f float_ops \<Rightarrow> string option \<Rightarrow> 'f option \<Rightarrow> 'f option \<Rightarrow> 'f option \<Rightarrow> 'f pydict" where
  "data_point fl ts cv mv dv =
     (case ts of None \<Rightarrow> [] | Some s \<Rightarrow> [(''timestamp'', PStr s)])
     @ (case cv of None \<Rightarrow> [] | Some x \<Rightarrow> [(''cpu_percent'', PFloat (round2 fl x))])
     @ (case mv of None \<Rightarrow> [] | Some x \<Rightarrow> [(''memory_available_mb'', PFloat (round2 fl x))])
     @ (case dv of None \<Rightarrow> [] | Some x \<Rightarrow> [(''disk_percent'', PFloat (round2 fl x))])"

definition add_point ::
  "'f float_ops \<Rightarrow> string option \<Rightarrow> 'f option \<Rightarrow> 'f option \<Rightarrow> 'f option
     \<Rightarrow> 'f list \<times> 'f pyval list \<Rightarrow> 'f list \<times> 'f pyval list" where
  "add_point fl ts cv mv dv acc =
     ((case cv of None \<Rightarrow> fst acc | Some x \<Rightarrow> fst acc @ [x]),
      (if cv \<noteq> None \<or> mv \<noteq> None then snd acc @ [PDict (data_point fl ts cv mv dv)]
       else snd acc))"

definition record_samples ::
  "'f float_ops \<Rightarrow> 'f list \<times> 'f pyval list \<Rightarrow> 'f pydict \<Rightarrow> 'f pydict" where
  "record_samples fl acc h =
     AList.update ''total_samples'' (PInt (int (length (snd acc))))
       (AList.update ''sample_interval_minutes'' (PInt 5)
          (AList.update ''hourly_data'' (PList (snd acc))
             (AList.update ''data_points'' (PInt (int (length (fst acc))))
                (AList.update ''average''
                   (PDict [(''total'', PFloat (round2 fl (mean fl (fst acc)))),
                           (''min'', PFloat (round2 fl (minimum fl (fst acc)))),
                           (''max'', PFloat (round2 fl (maximum fl (fst acc))))])
                   (AList.update ''available'' (PBool True) h)))))"

subsection \<open>CSV logs\<close>

text \<open>The column search tests \<open>not idx\<close>, which also holds for the index 0: a column found
  at position 0 is replaced by a later match.\<close>

definition falsy_index :: "nat option \<Rightarrow> bool" where
  "falsy_index i = (i = None \<or> i = Some 0)"

type_synonym columns = "nat option \<times> nat option \<times> nat option \<times> nat option"

fun find_columns :: "nat \<Rightarrow> string list \<Rightarrow> columns \<Rightarrow> columns" where
  "find_columns i [] cols = cols"
| "find_columns i (header # rest) (t, c, m, d) =
     find_columns (Suc i) rest
       (if falsy_index t \<and> is_timestamp_header header then Some i else t,
        if falsy_index c \<and> is_cpu_header header then Some i else c,
        if falsy_index m \<and> is_memory_header header then Some i else m,
        if falsy_index d \<and> is_disk_header header then Some i else d)"

text \<open>\<open>max(filter(None, [timestamp_idx, cpu_idx, memory_idx, disk_idx]))\<close>: \<open>None\<close> and 0 are
  filtered out, and the maximum of nothing raises \<open>ValueError\<close>.\<close>

definition truthy_indices :: "columns \<Rightarrow> nat list" where
  "truthy_indices cols =
     (case cols of (t, c, m, d) \<Rightarrow>
        concat (map (\<lambda>i. case i of None \<Rightarrow> [] | Some n \<Rightarrow> if n = 0 then [] else [n]) [t, c, m, d]))"

definition max_empty_message :: string where
  "max_empty_message = ''max() arg is an empty sequence''"

definition strip_quotes :: "string \<Rightarrow> string" where
  "strip_quotes s = strip_chars (\<lambda>c. c = CHR 0x22) s"

definition csv_field :: "string list \<Rightarrow> nat option \<Rightarrow> string option" where
  "csv_field row idx =
     (case idx of
        None \<Rightarrow> None
      | Some i \<Rightarrow> if length row > i then Some (strip_quotes (row ! i)) else None)"

definition csv_number :: "'f float_ops \<Rightarrow> string list \<Rightarrow> nat option \<Rightarrow> 'f option" where
  "csv_number fl row idx = (case csv_field row idx of None \<Rightarrow> None | Some s \<Rightarrow> float_of fl s)"

definition csv_row ::
  "'f float_ops \<Rightarrow> columns \<Rightarrow> string list \<Rightarrow> 'f list \<times> 'f pyval list \<Rightarrow> 'f list \<times> 'f pyval list" where
  "csv_row fl cols row acc =
     (case cols of (t, c, m, d) \<Rightarrow>
        add_point fl (csv_field row t) (csv_number fl row c) (csv_number fl row m)
          (csv_number fl row d) acc)"

fun csv_rows ::
  "'f float_ops \<Rightarrow> columns \<Rightarrow> string list list \<Rightarrow> 'f list \<times> 'f pyval list
     \<Rightarrow> (string \<times> 'f list \<times> 'f pyval list) + ('f list \<times> 'f pyval list)" where
  "csv_rows fl cols [] acc = Inr acc"
| "csv_rows fl cols (row # rest) acc =
     (if truthy_indices cols = [] then Inl (max_empty_message, acc)
      else if length row \<le> fold max (truthy_indices cols) 0 then csv_rows fl cols rest acc
      else csv_rows fl cols rest (csv_row fl cols row acc))"

definition file_error :: "string \<Rightarrow> string \<Rightarrow> 'f pydict \<Rightarrow> 'f pydict" where
  "file_error path msg h =
     AList.update ''file_errors''
       (PList ((case map_of h ''file_errors'' of Some (PList xs) \<Rightarrow> xs | _ \<Rightarrow> [])
               @ [PStr (path @ '': '' @ msg)])) h"

definition csv_file ::
  "'f float_ops \<Rightarrow> windows_env \<Rightarrow> string \<Rightarrow> ('f list \<times> 'f pyval list) \<times> 'f pydict
     \<Rightarrow> ('f list \<times> 'f pyval list) \<times> 'f pydict" where
  "csv_file fl env path s =
     (case read_csv env path of
        Inl msg \<Rightarrow> (fst s, file_error path msg (snd s))
      | Inr rows \<Rightarrow>
          if length rows < 2 then s
          else (case csv_rows fl (find_columns 0 (hd rows) (None, None, None, None)) (tl rows) (fst s) of
                  Inl (msg, acc) \<Rightarrow> (acc, file_error path msg (snd s))
                | Inr acc \<Rightarrow> (acc, snd s)))"

definition process_csv ::
  "'f float_ops \<Rightarrow> windows_env \<Rightarrow> string list \<Rightarrow> 'f pydict \<Rightarrow> 'f pydict" where
  "process_csv fl env csv_files h =
     (let s = fold (csv_file fl env) csv_files (([], []), h) in
      if fst (fst s) \<noteq> [] then
        (case report_print env of
           None \<Rightarrow> record_samples fl (fst s) (snd s)
         | Some msg \<Rightarrow> AList.update ''parse_error'' (PStr msg) (record_samples fl (fst s) (snd s)))
      else
        AList.update ''debug_info''
          (PDict [(''csv_files_processed'', PInt (int (length csv_files))),
                  (''total_rows_found'', PInt (int (length (snd (fst s))))),
                  (''suggestion'', PStr ''Run diagnose_csv.py to inspect the CSV file contents'')])
          (AList.update ''note''
             (PStr ''Performance Monitor may have just started. Wait a few minutes for data collection, or check that the collector is running properly.'')
             (set_error ''CSV files found but no valid CPU data extracted'' (snd s))))"

subsection \<open>Binary logs, converted by \<open>relog\<close>\<close>

text \<open>The search for the column names tests \<open>'...' in key\<close>, which raises \<open>TypeError\<close> for
  the name \<open>None\<close> unless the column it looks for is already found.\<close>

definition falsy_key :: "string option \<Rightarrow> bool" where
  "falsy_key k = (k = None \<or> k = Some [])"

definition pick_key ::
  "(string \<Rightarrow> bool) \<Rightarrow> string option \<Rightarrow> string option \<Rightarrow> string option option" where
  "pick_key matches key cur =
     (if falsy_key cur then
        (case key of
           None \<Rightarrow> None
         | Some s \<Rightarrow> Some (if matches s then Some s else cur))
      else Some cur)"

type_synonym column_keys = "string option \<times> string option \<times> string option \<times> string option"

fun find_keys :: "string option list \<Rightarrow> column_keys \<Rightarrow> column_keys option" where
  "find_keys [] ks = Some ks"
| "find_keys (key # rest) (t, c, m, d) =
     (case pick_key is_timestamp_header key t of
        None \<Rightarrow> None
      | Some t' \<Rightarrow>
          (case pick_key is_cpu_header key c of
             None \<Rightarrow> None
           | Some c' \<Rightarrow>
               (case pick_key is_memory_header key m of
                  None \<Rightarrow> None
                | Some m' \<Rightarrow>
                    (case pick_key is_disk_header key d of
                       None \<Rightarrow> None
                     | Some d' \<Rightarrow> find_keys rest (t', c', m', d')))))"

definition none_not_iterable_message :: string where
  "none_not_iterable_message =
     ''argument of type '' @ [CHR 0x27] @ ''NoneType'' @ [CHR 0x27] @ '' is not iterable''"

text \<open>\<open>key and row.get(key)\<close>: the field under a column that was found, if it is not
  empty.\<close>

definition export_field :: "export_row \<Rightarrow> string option \<Rightarrow> string option" where
  "export_field row key =
     (if falsy_key key then None
      else (case map_of row key of
              Some (Some v) \<Rightarrow> if v = [] then None else Some v
            | _ \<Rightarrow> None))"

definition export_number :: "'f float_ops \<Rightarrow> export_row \<Rightarrow> string option \<Rightarrow> 'f option" where
  "export_number fl row key =
     (case export_field row key of None \<Rightarrow> None | Some s \<Rightarrow> float_of fl s)"

definition export_row ::
  "'f float_ops \<Rightarrow> column_keys \<Rightarrow> export_row \<Rightarrow> 'f list \<times> 'f pyval list \<Rightarrow> 'f list \<times> 'f pyval list" where
  "export_row fl ks row acc =
     (case ks of (t, c, m, d) \<Rightarrow>
        add_point fl (export_field row t) (export_number fl row c) (export_number fl row m)
          (export_number fl row d) acc)"

definition parse_export ::
  "'f float_ops \<Rightarrow> windows_env \<Rightarrow> 'f pydict \<Rightarrow> 'f pydict" where
  "parse_export fl env h =
     (case read_export env of
        Inl msg \<Rightarrow> AList.update ''parse_error'' (PStr msg) h
      | Inr rows \<Rightarrow>
          (case (if rows = [] then Some h
                 else (case find_keys (map fst (hd rows)) (None, None, None, None) of
                         None \<Rightarrow> None
                       | Some ks \<Rightarrow>
                           (let acc = fold (export_row fl ks) rows ([], []) in
                            Some (if fst acc \<noteq> [] then record_samples fl acc h else h)))) of
             None \<Rightarrow> AList.update ''parse_error'' (PStr none_not_iterable_message) h
           | Some h' \<Rightarrow>
               (case remove_export env of
                  None \<Rightarrow> h'
                | Some msg \<Rightarrow> AList.update ''parse_error'' (PStr msg) h')))"

definition process_blg ::
  "'f float_ops \<Rightarrow> windows_env \<Rightarrow> string list \<Rightarrow> 'f pydict \<Rightarrow> 'f pydict" where
  "process_blg fl env log_files h =
     (case run_relog env (hd log_files) of
        RelogRaised msg \<Rightarrow> AList.update ''extraction_error'' (PStr msg) h
      | RelogExit rc err \<Rightarrow>
          if rc = 0 \<and> export_exists env then parse_export fl env h
          else AList.update ''relog_error'' (PStr err) h)"

subsection \<open>The collector\<close>

definition is_available :: "'f pydict \<Rightarrow> bool" where
  "is_available h = (map_of h ''available'' = Some (PBool True))"

definition get_previous_day_cpu_utilization_windows ::
  "'f float_ops \<Rightarrow> windows_env \<Rightarrow> 'f pydict" where
  "get_previous_day_cpu_utilization_windows fl env =
     (let h0 = AList.update ''date'' (PStr (w_yesterday_date env)) initial_cpu_history;
          log_files = recent_files ''.blg'' (log_dir_files env);
          csv_files = recent_files ''.csv'' (log_dir_files env);
          files_to_process = (if csv_files \<noteq> [] then csv_files else log_files)
      in
      if log_dir_exists env then
        (if files_to_process \<noteq> [] then
           (let h1 = AList.update ''file_type'' (PStr (if csv_files \<noteq> [] then ''csv'' else ''blg''))
                       (AList.update ''log_files_found'' (PList (map PStr files_to_process)) h0);
                h2 = (if csv_files \<noteq> [] then process_csv fl env csv_files h1
                      else process_blg fl env log_files h1)
            in
            if \<not> is_available h2 then
              AList.update ''note''
                (PStr ''Performance Monitor logs found but data extraction needs more time or configuration.'') h2
            else h2)
         else
           AList.update ''note''
             (PStr ''Data collector may need to run for at least 24 hours to collect historical data.'')
             (set_error (''No Performance Monitor logs (.csv or .blg) found in '' @ perf_log_dir) h0))
      else if \<not> pm_exists env then
        AList.update ''note''
          (PStr ''Run with --enable-perfmon to automatically configure CPU data collection'')
          (set_error ''Performance Monitor data collector not configured'' h0)
      else
        AList.update ''note''
          (PStr (if pm_running env
                 then ''Data collector is running but needs time to collect data (wait 24 hours)''
                 else ''Data collector exists but is not running. Run with --enable-perfmon to start it.''))
          (set_error (''Performance Monitor log directory not found: '' @ perf_log_dir) h0))"

section \<open>The pipelines: \<open>collect_all\<close>\<close>







section \<open>Notions for stating the properties of the normalizer\<close>

text \<open>The dictionary that a loop leaves behind, whether it ended or raised; the case in
  which the Windows collector converts a binary log: the log directory is there and
  holds recent \<open>.blg\<close> files but no recent \<open>.csv\<close> file; a key being present in a
  dictionary; the five keys that every result has; and the two states of a result: data
  with an empty \<open>error\<close>, or no data with a given value of \<open>error\<close>.\<close>

definition final_dict :: "(string \<times> 'a) + 'a \<Rightarrow> 'a" where
  "final_dict r = (case r of Inl (msg, h) \<Rightarrow> h | Inr h \<Rightarrow> h)"

definition only_binary_logs :: "windows_env \<Rightarrow> bool" where
  "only_binary_logs env =
     (log_dir_exists env \<and> recent_files ''.csv'' (log_dir_files env) = [] \<and>
      recent_files ''.blg'' (log_dir_files env) \<noteq> [])"

definition has_key :: "'f pydict \<Rightarrow> string \<Rightarrow> bool" where
  "has_key h k = (map_of h k \<noteq> None)"

definition series_keys :: "string list" where
  "series_keys = [''available'', ''date'', ''average'', ''hourly_data'', ''error'']"

definition series_ok :: "'f pydict \<Rightarrow> bool" where
  "series_ok r =
     (map_of r ''available'' = Some (PBool True) \<and> map_of r ''error'' = Some PNone \<and>
      (\<exists>xs. map_of r ''hourly_data'' = Some (PList xs) \<and> xs \<noteq> []))"

definition series_failed :: "'f pyval \<Rightarrow> 'f pydict \<Rightarrow> bool" where
  "series_failed e r = (map_of r ''available'' = Some (PBool False) \<and> map_of r ''error'' = Some e)"

section \<open>Example environments of the normalizer\<close>

text \<open>
  For the concrete runs the numbers are integers: \<open>float\<close> reads a string of decimal
  digits, \<open>round\<close> keeps its argument, and the mean is the integer quotient.
\<close>

definition ex_float :: "int float_ops" where
  "ex_float =
     \<lparr>float_of = (\<lambda>s. map_option int (py_int s)),
      float_error = (\<lambda>s. ''could not convert string to float: '' @ s),
      round2 = (\<lambda>x. x),
      mean = (\<lambda>xs. sum_list xs div int (length xs)),
      minimum = (\<lambda>xs. fold min xs (hd xs)),
      maximum = (\<lambda>xs. fold max xs (hd xs))\<rparr>"

text \<open>Linux: yesterday's file exists, and \<open>sar\<close> prints only its banner, exceeds its
  bound, or exits with status 1.\<close>

definition sar_env :: "sar_outcome \<Rightarrow> linux_env" where
  "sar_env outcome =
     \<lparr>has_rpm = False, sa_file_day = ''03'', yesterday_date = ''2026-11-03'',
      path_exists = (\<lambda>p. True), run_sar = (\<lambda>p. outcome)\<rparr>"

definition sar_banner_env :: linux_env where
  "sar_banner_env = sar_env (SarExit 0 ''Linux 5.15 (host)'' [])"

definition sar_timeout_env :: linux_env where
  "sar_timeout_env = sar_env SarTimeout"


text \<open>Windows: the log directory holds one recent file. For a binary log, \<open>relog\<close>
  exceeds its bound or exits with status 1; a CSV log has a header and one row.\<close>

definition perf_env :: "string \<Rightarrow> relog_outcome \<Rightarrow> windows_env" where
  "perf_env file outcome =
     \<lparr>w_yesterday_date = ''2026-11-03'', log_dir_exists = True,
      log_dir_files = [\<lparr>lf_path = perf_log_dir @ [CHR 0x5C] @ file, lf_age_days = Some 0\<rparr>],
      read_csv = (\<lambda>p. Inr [[''(PDH-CSV 4.0) (UTC)(0)'', ''Processor(_Total) % Processor Time''],
                             [''11/03/2026 00:05:00.000'', ''12'']]),
      report_print = None, run_relog = (\<lambda>p. outcome), export_exists = False,
      read_export = Inr [], remove_export = None, pm_exists = True, pm_running = True\<rparr>"

definition relog_timeout_env :: windows_env where
  "relog_timeout_env = perf_env ''cpu.blg'' (RelogRaised ''Command relog timed out after 60 seconds'')"


definition csv_env :: windows_env where
  "csv_env = perf_env ''cpu.csv'' (RelogExit 0 [])"


section \<open>Well-known resolution\<close>

text \<open>
  C8. A port that is not a key of the static table resolves to \<open>Unknown-P\<close> on Linux and
  to \<open>Port-P\<close> on Windows, where \<open>P\<close> is the decimal rendering of the port; a port that
  is a key resolves to the label the table gives it.
\<close>

theorem well_known_resolution:
  "(port \<notin> fst ` set common_ports \<longrightarrow>
      identify_service_by_port_linux port = ''Unknown-'' @ str_nat port) \<and>
   (port \<notin> fst ` set well_known_ports \<longrightarrow>
      identify_service_by_port_windows port = ''Port-'' @ str_nat port) \<and>
   (\<forall>label. map_of common_ports port = Some label \<longrightarrow>
      identify_service_by_port_linux port = label) \<and>
   (\<forall>label. map_of well_known_ports port = Some label \<longrightarrow>
      identify_service_by_port_windows port = label)"
proof -
  have l: "port \<notin> fst ` set common_ports \<Longrightarrow> map_of common_ports port = None"
    by (simp add: map_of_eq_None_iff)
  have w: "port \<notin> fst ` set well_known_ports \<Longrightarrow> map_of well_known_ports port = None"
    by (simp add: map_of_eq_None_iff)
  show ?thesis
    using l w
    by (simp add: identify_service_by_port_linux_def identify_service_by_port_windows_def)
qed

theorem well_known_resolution_witness:
  "9999 \<notin> fst ` set common_ports \<and>
   identify_service_by_port_linux 9999 = ''Unknown-9999'' \<and>
   9999 \<notin> fst ` set well_known_ports \<and>
   identify_service_by_port_windows 9999 = ''Port-9999'' \<and>
   map_of common_ports 1433 = Some ''MS-SQL'' \<and>
   identify_service_by_port_linux 1433 = ''MS-SQL'' \<and>
   map_of well_known_ports 1433 = Some ''MSSQL'' \<and>
   identify_service_by_port_windows 1433 = ''MSSQL''"
proof -
  have a: "(9999::nat) \<notin> fst ` set common_ports"
    by (simp add: common_ports_def)
  have b: "(9999::nat) \<notin> fst ` set well_known_ports"
    by (simp add: well_known_ports_def)
  have c: "map_of common_ports 1433 = Some ''MS-SQL''"
    by (simp add: common_ports_def)
  have d: "map_of well_known_ports 1433 = Some ''MSSQL''"
    by (simp add: well_known_ports_def)
  have s: "str_nat 9999 = ''9999''"
    by (simp add: str_nat.simps digit_char_def)
  from well_known_resolution [of 9999] a b s
  have e: "identify_service_by_port_linux 9999 = ''Unknown-9999'' \<and>
           identify_service_by_port_windows 9999 = ''Port-9999''"
    by simp
  from well_known_resolution [of 1433] c d
  have f: "identify_service_by_port_linux 1433 = ''MS-SQL'' \<and>
           identify_service_by_port_windows 1433 = ''MSSQL''"
    by simp
  from a b c d e f show ?thesis by simp
qed

section \<open>Auxiliary facts\<close>

lemma map_of_update: "map_of (AList.update k v al) k' = (if k' = k then Some v else map_of al k')"
  by (simp add: update_conv')

lemma net_step_listening:
  assumes "net_step lookup c s = Inr s'"
  shows "map_of (ns_listening_ports s') p =
           (case map_of (ns_listening_ports s) p of
              Some v \<Rightarrow> Some v
            | None \<Rightarrow> if listens_on p c then binding_of lookup c else None)"
  using assms
  by (auto simp add: net_step_def Let_def listens_on_def binding_of_def map_of_update
      split: if_splits option.splits)

lemma net_step_index:
  assumes "net_step lookup c s = Inr s'"
  shows "map_of (port_service_map (ns_self s')) p =
           (if map_of (ns_listening_ports s) p = None \<and> listens_on p c \<and> index_entry lookup c \<noteq> None
            then index_entry lookup c
            else map_of (port_service_map (ns_self s)) p)"
  using assms
  by (auto simp add: net_step_def Let_def listens_on_def index_entry_def index_port_def truthy_def
      mk_conn_info_def map_of_update
      split: if_splits option.splits prod.splits)

lemma net_loop_listening:
  "net_loop lookup cs s = Inr s' \<Longrightarrow>
     map_of (ns_listening_ports s') p =
       (case map_of (ns_listening_ports s) p of
          Some v \<Rightarrow> Some v
        | None \<Rightarrow> (case find (listens_on p) cs of None \<Rightarrow> None | Some c \<Rightarrow> binding_of lookup c))"
proof (induction cs arbitrary: s)
  case Nil
  then show ?case by (simp split: option.splits)
next
  case (Cons c cs)
  from Cons.prems obtain s1 where st: "net_step lookup c s = Inr s1"
    and lp: "net_loop lookup cs s1 = Inr s'"
    by (auto split: sum.splits)
  have bind: "listens_on p c \<Longrightarrow> binding_of lookup c \<noteq> None"
    using st by (auto simp add: net_step_def listens_on_def binding_of_def Let_def split: if_splits option.splits)
  show ?case
    using Cons.IH [OF lp] net_step_listening [OF st, of p] bind
    by (auto split: option.splits)
qed

lemma net_loop_index:
  "net_loop lookup cs s = Inr s' \<Longrightarrow>
     map_of (port_service_map (ns_self s')) p =
       (case map_of (ns_listening_ports s) p of
          Some v \<Rightarrow> map_of (port_service_map (ns_self s)) p
        | None \<Rightarrow>
            (case find (listens_on p) cs of
               None \<Rightarrow> map_of (port_service_map (ns_self s)) p
             | Some c \<Rightarrow>
                 (case index_entry lookup c of
                    None \<Rightarrow> map_of (port_service_map (ns_self s)) p
                  | Some e \<Rightarrow> Some e)))"
proof (induction cs arbitrary: s)
  case Nil
  then show ?case by (simp split: option.splits)
next
  case (Cons c cs)
  from Cons.prems obtain s1 where st: "net_step lookup c s = Inr s1"
    and lp: "net_loop lookup cs s1 = Inr s'"
    by (auto split: sum.splits)
  have bind: "listens_on p c \<Longrightarrow> binding_of lookup c \<noteq> None"
    using st by (auto simp add: net_step_def listens_on_def binding_of_def Let_def split: if_splits option.splits)
  show ?case
    using Cons.IH [OF lp] net_step_listening [OF st, of p] net_step_index [OF st, of p] bind
    by (auto split: option.splits)
qed

lemma set_update_subset: "set (AList.update k v al) \<subseteq> insert (k, v) (set al)"
  by (induction al) auto

lemma net_step_lp_ok:
  assumes "net_step lookup c s = Inr s'" "lp_ok (ns_listening_ports s)"
  shows "lp_ok (ns_listening_ports s')"
proof -
  have "lp_ok (AList.update (addr_port la) (mk_service_info lookup c la) (ns_listening_ports s))" for la
    using assms(2) set_update_subset [of "addr_port la" "mk_service_info lookup c la" "ns_listening_ports s"]
    by (auto simp add: lp_ok_def distinct_update mk_service_info_def Let_def)
  then show ?thesis
    using assms by (auto simp add: net_step_def Let_def split: if_splits option.splits)
qed

lemma net_loop_lp_ok:
  "net_loop lookup cs s = Inr s' \<Longrightarrow> lp_ok (ns_listening_ports s) \<Longrightarrow> lp_ok (ns_listening_ports s')"
proof (induction cs arbitrary: s)
  case Nil
  then show ?case by simp
next
  case (Cons c cs)
  then show ?case by (auto split: sum.splits dest: net_step_lp_ok)
qed

lemma net_step_total:
  "(c_status c = ''LISTEN'' \<longrightarrow> c_laddr c \<noteq> None) \<Longrightarrow> \<exists>s'. net_step lookup c s = Inr s'"
  by (auto simp add: net_step_def Let_def split: option.splits)

lemma net_loop_total:
  "\<forall>c \<in> set cs. c_status c = ''LISTEN'' \<longrightarrow> c_laddr c \<noteq> None \<Longrightarrow> \<exists>s'. net_loop lookup cs s = Inr s'"
proof (induction cs arbitrary: s)
  case Nil
  then show ?case by simp
next
  case (Cons c cs)
  then obtain s1 where "net_step lookup c s = Inr s1"
    using net_step_total [of c lookup s] by auto
  then show ?case using Cons by auto
qed

lemma distinct_map_sort_key:
  "distinct (map f xs) \<Longrightarrow> distinct (map f (sort_key f xs))"
proof -
  assume "distinct (map f xs)"
  then have "distinct xs \<and> inj_on f (set xs)"
    by (simp only: distinct_map)
  then show ?thesis
    by (simp only: distinct_map distinct_sort set_sort)
qed

lemma sorted_listening:
  assumes "lp_ok lp"
  shows "sorted_wrt (<) (map si_port (sort_key si_port (map snd lp)))"
proof -
  have eq: "map si_port (map snd lp) = map fst lp"
    using assms by (auto simp add: lp_ok_def)
  have "distinct (map fst lp)"
    using assms by (simp add: lp_ok_def)
  then have "distinct (map si_port (map snd lp))"
    by (simp only: eq)
  then have "distinct (map si_port (sort_key si_port (map snd lp)))"
    by (rule distinct_map_sort_key)
  moreover have "sorted (map si_port (sort_key si_port (map snd lp)))"
    by simp
  ultimately show ?thesis
    by (simp add: strict_sorted_iff)
qed

lemma dict_append_cases:
  assumes "(k', vs) \<in> set (dict_append k v d)"
  shows "(k', vs) \<in> set d \<or> (k' = k \<and> (\<exists>old. vs = old @ [v] \<and> (old = [] \<or> (k, old) \<in> set d)))"
proof -
  have "(k', vs) \<in> insert (k, (case map_of d k of None \<Rightarrow> [] | Some vs \<Rightarrow> vs) @ [v]) (set d)"
    using assms set_update_subset unfolding dict_append_def by fastforce
  then show ?thesis
    by (auto split: option.splits dest: map_of_SomeD)
qed

lemma index_port_spm_ok:
  assumes "spm_ok st"
  shows "spm_ok (index_port ci c port (st\<lparr>process_connections := pc\<rparr>))"
proof (cases "truthy (process_name ci)")
  case False
  then show ?thesis using assms by (simp add: index_port_def spm_ok_def)
next
  case True
  let ?st' = "index_port ci c port (st\<lparr>process_connections := pc\<rparr>)"
  have "map_of (port_service_map ?st') q \<noteq> None"
    if a: "(name, ports) \<in> set (service_port_map ?st')" and q: "q \<in> set ports"
    for name ports q
  proof
    assume n: "map_of (port_service_map ?st') q = None"
    from n True have qp: "q \<noteq> port" and old: "map_of (port_service_map st) q = None"
      by (auto simp add: index_port_def Let_def map_of_update split: if_splits)
    from a True obtain k where "(name, ports) \<in> set (dict_append k port (service_port_map st))"
      by (auto simp add: index_port_def Let_def)
    then have "(name, ports) \<in> set (service_port_map st) \<or>
        (\<exists>old. ports = old @ [port] \<and> (old = [] \<or> (k, old) \<in> set (service_port_map st)))"
      using dict_append_cases by fastforce
    then show False
      using assms q qp old by (fastforce simp add: spm_ok_def)
  qed
  then show ?thesis
    by (fastforce simp add: spm_ok_def)
qed

lemma net_step_spm_ok:
  assumes "net_step lookup c s = Inr s'" "spm_ok (ns_self s)"
  shows "spm_ok (ns_self s')"
proof -
  have a: "spm_ok ((ns_self s)\<lparr>process_connections := pc\<rparr>)" for pc
    using assms(2) by (simp add: spm_ok_def)
  have b: "spm_ok (index_port ci c port ((ns_self s)\<lparr>process_connections := pc\<rparr>))" for ci port pc
    using index_port_spm_ok [OF assms(2)] .
  have c: "spm_ok (index_port ci c port (ns_self s))" for ci port
    using b [of ci port "process_connections (ns_self s)"] by simp
  show ?thesis
    using assms(1) a b c assms(2)
    by (auto simp add: net_step_def Let_def split: if_splits option.splits prod.splits)
qed

lemma net_loop_spm_ok:
  "net_loop lookup cs s = Inr s' \<Longrightarrow> spm_ok (ns_self s) \<Longrightarrow> spm_ok (ns_self s')"
proof (induction cs arbitrary: s)
  case Nil
  then show ?case by simp
next
  case (Cons c cs)
  then show ?case by (auto split: sum.splits dest: net_step_spm_ok)
qed

lemma lp_ok_member:
  assumes "lp_ok lp"
  shows "v \<in> set (map snd lp) \<longleftrightarrow> map_of lp (si_port v) = Some v"
proof
  assume "v \<in> set (map snd lp)"
  then obtain k where "(k, v) \<in> set lp" by auto
  moreover from this assms have "si_port v = k" by (auto simp add: lp_ok_def)
  ultimately show "map_of lp (si_port v) = Some v"
    using assms by (simp add: lp_ok_def)
next
  assume "map_of lp (si_port v) = Some v"
  then have "(si_port v, v) \<in> set lp" by (rule map_of_SomeD)
  then show "v \<in> set (map snd lp)" by force
qed

lemma init_ok: "lp_ok []" "spm_ok init_state"
  by (simp_all add: lp_ok_def spm_ok_def init_state_def)

lemma get_network_info_Inr:
  assumes "get_network_info lookup (Some conns) st = Inr (ni, st')"
  obtains s where
    "net_loop lookup conns \<lparr>ns_self = st, ns_listening_ports = [], ns_established = [], ns_connections = []\<rparr> = Inr s"
    "listening_ports ni = sort_key si_port (map snd (ns_listening_ports s))"
    "st' = ns_self s"
  using assms by (auto simp add: get_network_info_def split: sum.splits)

lemma update_keys_present:
  "map_of al k = Some v0 \<Longrightarrow> map fst (AList.update k v al) = map fst al"
  by (induction al) (auto split: if_splits)

lemma deps_conn_keys:
  "deps_conn proc_name pid conn d = Inr d' \<Longrightarrow>
     map fst (listening_services d') = map fst (listening_services d)"
  by (auto simp add: deps_conn_def Let_def update_keys_present
      split: if_splits sum.splits option.splits prod.splits)

lemma deps_conns_keys:
  "deps_conns proc_name pid conns d = Inr d' \<Longrightarrow>
     map fst (listening_services d') = map fst (listening_services d)"
proof (induction conns arbitrary: d)
  case Nil
  then show ?case by simp
next
  case (Cons conn conns)
  then show ?case by (auto split: sum.splits dest: deps_conn_keys)
qed

lemma deps_loop_keys:
  "deps_loop lookup pcs d = Inr d' \<Longrightarrow>
     map fst (listening_services d') = map fst (listening_services d)"
proof (induction pcs arbitrary: d)
  case Nil
  then show ?case by simp
next
  case (Cons pc pcs)
  obtain pid conns where pc: "pc = (pid, conns)" by (cases pc)
  show ?case
    using Cons unfolding pc
    by (auto split: option.splits sum.splits dest: deps_conns_keys)
qed

lemma get_port_dependencies_keys:
  assumes "get_port_dependencies lookup st = Inr pd"
  shows "map fst (listening_services pd) = map fst (port_service_map st)"
    and "map fst (port_usage_map pd) = map fst (port_service_map st)"
proof -
  from assms obtain d where
    loop: "deps_loop lookup (process_connections st)
             \<lparr>listening_services = initial_listening_services (port_service_map st),
              port_usage_map = [], dependency_graph = []\<rparr> = Inr d"
    and pd: "pd = d\<lparr>port_usage_map := port_usage_summary (listening_services d)\<rparr>"
    by (auto simp add: get_port_dependencies_def split: sum.splits)
  have "map fst (initial_listening_services psm) = map fst psm" for psm
    by (induction psm) (auto simp add: initial_listening_services_def)
  then have k: "map fst (listening_services d) = map fst (port_service_map st)"
    using deps_loop_keys [OF loop] by simp
  have u: "map fst (port_usage_summary lss) = map fst lss" for lss
    by (induction lss) (auto simp add: port_usage_summary_def)
  show "map fst (listening_services pd) = map fst (port_service_map st)"
    using k pd by simp
  show "map fst (port_usage_map pd) = map fst (port_service_map st)"
    using k u pd by simp
qed

lemma map_of_None_keys: "map fst al = map fst bl \<Longrightarrow> map_of al k = None \<Longrightarrow> map_of bl k = None"
  by (metis map_of_eq_None_iff set_map)

lemma listening_ports_member:
  assumes "get_network_info lookup (Some conns) st = Inr (ni, st')"
  shows "si \<in> set (listening_ports ni) \<longleftrightarrow>
      (\<exists>c. find (listens_on (si_port si)) conns = Some c \<and> binding_of lookup c = Some si)"
proof -
  from assms obtain s where
    loop: "net_loop lookup conns \<lparr>ns_self = st, ns_listening_ports = [], ns_established = [], ns_connections = []\<rparr> = Inr s"
    and lp: "listening_ports ni = sort_key si_port (map snd (ns_listening_ports s))"
    by (rule get_network_info_Inr)
  have ok: "lp_ok (ns_listening_ports s)"
    using net_loop_lp_ok [OF loop] init_ok(1) by simp
  have "si \<in> set (listening_ports ni) \<longleftrightarrow> map_of (ns_listening_ports s) (si_port si) = Some si"
    unfolding lp using lp_ok_member [OF ok, of si] by simp
  also have "\<dots> \<longleftrightarrow> (\<exists>c. find (listens_on (si_port si)) conns = Some c \<and> binding_of lookup c = Some si)"
    using net_loop_listening [OF loop, of "si_port si"] by (auto split: option.splits)
  finally show ?thesis .
qed

lemma port_index_lookup:
  assumes "get_network_info lookup (Some conns) init_state = Inr (ni, st)"
  shows "map_of (port_service_map st) p =
           (case find (listens_on p) conns of
              None \<Rightarrow> None
            | Some c \<Rightarrow> index_entry lookup c)"
proof -
  from assms obtain s where
    loop: "net_loop lookup conns \<lparr>ns_self = init_state, ns_listening_ports = [], ns_established = [], ns_connections = []\<rparr> = Inr s"
    and st: "st = ns_self s"
    by (rule get_network_info_Inr)
  show ?thesis
    using net_loop_index [OF loop, of p] st
    by (auto simp add: init_state_def split: option.splits)
qed

lemma get_network_info_total:
  assumes "\<forall>c \<in> set conns. c_status c = ''LISTEN'' \<longrightarrow> c_laddr c \<noteq> None"
  shows "\<exists>ni st'. get_network_info lookup (Some conns) st = Inr (ni, st')"
proof -
  obtain s where "net_loop lookup conns \<lparr>ns_self = st, ns_listening_ports = [], ns_established = [], ns_connections = []\<rparr> = Inr s"
    using net_loop_total [OF assms] by blast
  then show ?thesis by (simp add: get_network_info_def)
qed

lemma get_network_info_spm_ok:
  assumes "get_network_info lookup (Some conns) init_state = Inr (ni, st)"
  shows "spm_ok st"
proof -
  from assms obtain s where
    loop: "net_loop lookup conns \<lparr>ns_self = init_state, ns_listening_ports = [], ns_established = [], ns_connections = []\<rparr> = Inr s"
    and st: "st = ns_self s"
    by (rule get_network_info_Inr)
  show ?thesis
    using net_loop_spm_ok [OF loop] init_ok(2) st by simp
qed

lemmas net_eval = get_network_info_def net_step_def mk_conn_info_def owner_def
  init_state_def index_port_def truthy_def dict_append_def mk_service_info_def format_addr_def Let_def

lemmas deps_eval = get_port_dependencies_def deps_conn_def deps_is_local_def
  initial_listening_services_def port_usage_summary_def truthy_def Let_def

lemma parse_digits_append:
  "parse_digits acc (xs @ [c]) =
     (case parse_digits acc xs of
        None \<Rightarrow> None
      | Some v \<Rightarrow> (case digit_val c of None \<Rightarrow> None | Some d \<Rightarrow> Some (10 * v + d)))"
  by (induction xs arbitrary: acc) (auto split: option.splits)

lemma digit_cases:
  "d < 10 \<Longrightarrow> d = 0 \<or> d = 1 \<or> d = 2 \<or> d = 3 \<or> d = 4 \<or> d = 5 \<or> d = 6 \<or> d = 7 \<or> d = 8 \<or> d = (9::nat)"
  by presburger

lemma digit_val_digit_char: "d < 10 \<Longrightarrow> digit_val (digit_char d) = Some d"
  using digit_cases [of d] by (auto simp add: digit_val_def digit_char_def)

lemma str_nat_nonempty: "str_nat n \<noteq> []"
  by (subst str_nat.simps) simp

lemma parse_digits_str_nat: "parse_digits 0 (str_nat n) = Some n"
proof (induction n rule: str_nat.induct)
  case (1 n)
  show ?case
  proof (cases "n < 10")
    case True
    then show ?thesis
      by (subst str_nat.simps) (simp add: digit_val_digit_char)
  next
    case False
    then have ih: "parse_digits 0 (str_nat (n div 10)) = Some (n div 10)"
      using 1 by simp
    have "n mod 10 < 10" by simp
    then have dv: "digit_val (digit_char (n mod 10)) = Some (n mod 10)"
      by (rule digit_val_digit_char)
    show ?thesis
      using False ih dv
      by (subst str_nat.simps) (simp add: parse_digits_append)
  qed
qed

lemma py_int_str_nat: "py_int (str_nat n) = Some n"
  by (simp add: py_int_def str_nat_nonempty parse_digits_str_nat)

lemma digit_char_not_colon: "d < 10 \<Longrightarrow> digit_char d \<noteq> CHR '':''"
  using digit_cases [of d] by (auto simp add: digit_char_def)

lemma str_nat_no_colon: "CHR '':'' \<notin> set (str_nat n)"
proof (induction n rule: str_nat.induct)
  case (1 n)
  show ?case
  proof (cases "n < 10")
    case True
    then show ?thesis
      using digit_char_not_colon [of n] by (subst str_nat.simps) auto
  next
    case False
    have "n mod 10 < 10" by simp
    then have "digit_char (n mod 10) \<noteq> CHR '':''" by (rule digit_char_not_colon)
    then show ?thesis
      using False 1 by (subst str_nat.simps) auto
  qed
qed

lemmas ex_eval = ex_procs_def listener_def client_conn_def

lemma str_5432: "str_nat 5432 = ''5432''"
  by (simp add: str_nat.simps digit_char_def)

lemma str_40000: "str_nat 40000 = ''40000''"
  by (simp add: str_nat.simps digit_char_def)

lemma str_40001: "str_nat 40001 = ''40001''"
  by (simp add: str_nat.simps digit_char_def)

lemma str_8080: "str_nat 8080 = ''8080''"
  by (simp add: str_nat.simps digit_char_def)

lemma str_40002: "str_nat 40002 = ''40002''"
  by (simp add: str_nat.simps digit_char_def)

lemma str_9000: "str_nat 9000 = ''9000''"
  by (simp add: str_nat.simps digit_char_def)

lemmas str_eval = str_5432 str_40000 str_40001 str_40002 str_8080 str_9000

lemma deps_parse_v4: "deps_parse_remote ''127.0.0.1:5432'' = Inr (''127.0.0.1'', 5432)"
  by (simp add: deps_parse_remote_def rsplit1_def py_int_def digit_val_def)

lemma deps_parse_v6: "deps_parse_remote ''::1:5432'' = Inr (''::1'', 5432)"
  by (simp add: deps_parse_remote_def rsplit1_def py_int_def digit_val_def)

lemma grapher_parse_v4: "grapher_parse_remote ''127.0.0.1:5432'' = Inr (''127.0.0.1'', 5432)"
  by (simp add: grapher_parse_remote_def py_int_def digit_val_def)

lemma grapher_parse_v6: "grapher_parse_remote ''::1:5432'' = Inl ValueError"
  by (simp add: grapher_parse_remote_def)

lemma svc_agree_Some:
  assumes "svc_agree psm lss" "map_of lss q = Some ls"
  shows "\<exists>info. map_of psm q = Some info \<and> ps_service info = service ls"
proof -
  have "map_option ps_service (map_of psm q) = Some (service ls)"
    using assms unfolding svc_agree_def by (metis option.simps(9))
  then show ?thesis by auto
qed

lemma svc_agree_None:
  assumes "svc_agree psm lss" "map_of lss q = None"
  shows "map_of psm q = None"
proof -
  have "map_option ps_service (map_of psm q) = None"
    using assms unfolding svc_agree_def by (metis option.simps(8))
  then show ?thesis by simp
qed

lemma svc_agree_update:
  assumes "svc_agree psm lss" "map_of lss q = Some ls" "service ls' = service ls"
  shows "svc_agree psm (AList.update q ls' lss)"
  using assms unfolding svc_agree_def by (auto simp add: map_of_update) (metis option.simps(9))

lemma deps_conn_edges:
  assumes run: "deps_conn proc_name pid conn d = Inr d'"
    and agree: "svc_agree psm (listening_services d)"
  shows "dependency_graph d' = dependency_graph d @ dependency_of psm proc_name pid conn \<and>
         svc_agree psm (listening_services d')"
proof (cases "ci_status conn = ''ESTABLISHED'' \<and> truthy (remote_address conn)")
  case False
  then show ?thesis
    using run agree by (auto simp add: deps_conn_def dependency_of_def split: if_splits)
next
  case True
  let ?a = "case remote_address conn of Some a \<Rightarrow> a | None \<Rightarrow> []"
  show ?thesis
  proof (cases "deps_parse_remote ?a")
    case (Inl e)
    then show ?thesis
      using run True by (simp add: deps_conn_def)
  next
    case (Inr ipport)
    obtain ip port where ipport: "ipport = (ip, port)" by (cases ipport)
    show ?thesis
    proof (cases "deps_is_local ip")
      case False
      then show ?thesis
        using run agree True Inr ipport by (simp add: deps_conn_def dependency_of_def)
    next
      case loc: True
      show ?thesis
      proof (cases "map_of (listening_services d) port")
        case None
        then have "map_of psm port = None"
          using agree svc_agree_None by blast
        then show ?thesis
          using run agree True Inr ipport loc None by (simp add: deps_conn_def dependency_of_def)
      next
        case (Some ls)
        then obtain info where info: "map_of psm port = Some info" "ps_service info = service ls"
          using agree svc_agree_Some by blast
        let ?c = "\<lparr>ci_client_process = proc_name, ci_client_pid = pid\<rparr>"
        let ?ls' = "if ?c \<in> set (clients ls) then ls else ls\<lparr>clients := clients ls @ [?c]\<rparr>"
        have sv: "service ?ls' = service ls" by simp
        have d': "d' = d\<lparr>listening_services := AList.update port ?ls' (listening_services d),
                         dependency_graph := dependency_graph d @
                           [\<lparr>client_process = proc_name, client_pid = pid, server_port = port,
                             server_service = service ?ls', dependency_type = ''port-level''\<rparr>]\<rparr>"
          using run True Inr ipport loc Some by (simp add: deps_conn_def Let_def)
        have e: "dependency_of psm proc_name pid conn =
                   [\<lparr>client_process = proc_name, client_pid = pid, server_port = port,
                     server_service = service ls, dependency_type = ''port-level''\<rparr>]"
          using True Inr ipport loc info by (simp add: dependency_of_def)
        have "svc_agree psm (AList.update port ?ls' (listening_services d))"
          using agree Some sv by (rule svc_agree_update)
        then show ?thesis
          unfolding d' e by simp
      qed
    qed
  qed
qed

lemma deps_conns_edges:
  "deps_conns proc_name pid conns d = Inr d' \<Longrightarrow> svc_agree psm (listening_services d) \<Longrightarrow>
     dependency_graph d' = dependency_graph d @ concat (map (dependency_of psm proc_name pid) conns) \<and>
     svc_agree psm (listening_services d')"
proof (induction conns arbitrary: d)
  case Nil
  then show ?case by simp
next
  case (Cons conn conns)
  from Cons.prems(1) obtain d1 where
    st: "deps_conn proc_name pid conn d = Inr d1" and rest: "deps_conns proc_name pid conns d1 = Inr d'"
    by (auto split: sum.splits)
  from deps_conn_edges [OF st Cons.prems(2)] Cons.IH [OF rest] show ?case
    by simp
qed

lemma deps_loop_edges:
  "deps_loop lookup pcs d = Inr d' \<Longrightarrow> svc_agree psm (listening_services d) \<Longrightarrow>
     dependency_graph d' = dependency_graph d @ edges_per_connection lookup psm pcs \<and>
     svc_agree psm (listening_services d')"
proof (induction pcs arbitrary: d)
  case Nil
  then show ?case by (simp add: edges_per_connection_def)
next
  case (Cons pc pcs)
  obtain pid conns where pc: "pc = (pid, conns)" by (cases pc)
  have unfold: "edges_per_connection lookup psm (pc # pcs) =
      (case lookup pid of None \<Rightarrow> [] | Some p \<Rightarrow> concat (map (dependency_of psm (p_name p) pid) conns))
      @ edges_per_connection lookup psm pcs"
    by (simp add: edges_per_connection_def pc)
  show ?case
  proof (cases "lookup pid")
    case None
    then show ?thesis
      using Cons unfold pc by simp
  next
    case (Some p)
    from Cons.prems(1) Some pc obtain d1 where
      st: "deps_conns (p_name p) pid conns d = Inr d1" and rest: "deps_loop lookup pcs d1 = Inr d'"
      by (auto split: sum.splits)
    from deps_conns_edges [OF st Cons.prems(2)] Cons.IH [OF rest] unfold Some show ?thesis
      by simp
  qed
qed

lemma svc_agree_initial: "svc_agree psm (initial_listening_services psm)"
  unfolding svc_agree_def initial_listening_services_def
  by (induction psm) auto

lemma dependency_graph_edges:
  assumes "get_port_dependencies lookup st = Inr pd"
  shows "dependency_graph pd = edges_per_connection lookup (port_service_map st) (process_connections st)"
proof -
  from assms obtain d where
    loop: "deps_loop lookup (process_connections st)
             \<lparr>listening_services = initial_listening_services (port_service_map st),
              port_usage_map = [], dependency_graph = []\<rparr> = Inr d"
    and pd: "pd = d\<lparr>port_usage_map := port_usage_summary (listening_services d)\<rparr>"
    by (auto simp add: get_port_dependencies_def split: sum.splits)
  from deps_loop_edges [OF loop, of "port_service_map st"] svc_agree_initial pd show ?thesis
    by simp
qed

lemma deps_conn_shape:
  assumes run: "deps_conn proc_name pid conn d = Inr d'"
  shows "listening_services d' = listening_services d \<or>
         (\<exists>port ls. map_of (listening_services d) port = Some ls \<and>
            \<lparr>ci_client_process = proc_name, ci_client_pid = pid\<rparr> \<notin> set (clients ls) \<and>
            listening_services d' =
              AList.update port
                (ls\<lparr>clients := clients ls @ [\<lparr>ci_client_process = proc_name, ci_client_pid = pid\<rparr>]\<rparr>)
                (listening_services d))"
proof (cases "ci_status conn = ''ESTABLISHED'' \<and> truthy (remote_address conn)")
  case False
  then show ?thesis
    using run by (auto simp add: deps_conn_def split: if_splits)
next
  case True
  let ?a = "case remote_address conn of Some a \<Rightarrow> a | None \<Rightarrow> []"
  show ?thesis
  proof (cases "deps_parse_remote ?a")
    case (Inl e)
    then show ?thesis
      using run True by (simp add: deps_conn_def)
  next
    case (Inr ipport)
    obtain ip port where ipport: "ipport = (ip, port)" by (cases ipport)
    show ?thesis
    proof (cases "deps_is_local ip \<and> map_of (listening_services d) port \<noteq> None")
      case False
      then show ?thesis
        using run True Inr ipport by (auto simp add: deps_conn_def split: if_splits option.splits)
    next
      case loc: True
      then obtain ls where ls: "map_of (listening_services d) port = Some ls" by auto
      let ?c = "\<lparr>ci_client_process = proc_name, ci_client_pid = pid\<rparr>"
      show ?thesis
      proof (cases "?c \<in> set (clients ls)")
        case True
        have "listening_services d' = AList.update port ls (listening_services d)"
          using run \<open>ci_status conn = ''ESTABLISHED'' \<and> truthy (remote_address conn)\<close> Inr ipport loc ls True
          by (auto simp add: deps_conn_def Let_def)
        also have "\<dots> = listening_services d"
          using ls by (simp add: update_triv)
        finally show ?thesis by simp
      next
        case False
        have "listening_services d' =
                AList.update port (ls\<lparr>clients := clients ls @ [?c]\<rparr>) (listening_services d)"
          using run \<open>ci_status conn = ''ESTABLISHED'' \<and> truthy (remote_address conn)\<close> Inr ipport loc ls False
          by (auto simp add: deps_conn_def Let_def)
        with ls False show ?thesis by blast
      qed
    qed
  qed
qed

lemma deps_conn_clients_ok:
  assumes "deps_conn proc_name pid conn d = Inr d'" "clients_ok (listening_services d)"
  shows "clients_ok (listening_services d')"
proof -
  from deps_conn_shape [OF assms(1)] show ?thesis
  proof
    assume "listening_services d' = listening_services d"
    then show ?thesis using assms(2) by simp
  next
    assume "\<exists>port ls. map_of (listening_services d) port = Some ls \<and>
            \<lparr>ci_client_process = proc_name, ci_client_pid = pid\<rparr> \<notin> set (clients ls) \<and>
            listening_services d' =
              AList.update port
                (ls\<lparr>clients := clients ls @ [\<lparr>ci_client_process = proc_name, ci_client_pid = pid\<rparr>]\<rparr>)
                (listening_services d)"
    then obtain port ls where ls: "map_of (listening_services d) port = Some ls"
      and new: "\<lparr>ci_client_process = proc_name, ci_client_pid = pid\<rparr> \<notin> set (clients ls)"
      and eq: "listening_services d' =
              AList.update port
                (ls\<lparr>clients := clients ls @ [\<lparr>ci_client_process = proc_name, ci_client_pid = pid\<rparr>]\<rparr>)
                (listening_services d)"
      by blast
    have "(port, ls) \<in> set (listening_services d)"
      using ls by (rule map_of_SomeD)
    then have "distinct (clients ls)"
      using assms(2) by (auto simp add: clients_ok_def)
    then show ?thesis
      using assms(2) new set_update_subset [of port _ "listening_services d"]
      unfolding eq clients_ok_def by fastforce
  qed
qed

lemma deps_conns_clients_ok:
  "deps_conns proc_name pid conns d = Inr d' \<Longrightarrow> clients_ok (listening_services d) \<Longrightarrow>
     clients_ok (listening_services d')"
proof (induction conns arbitrary: d)
  case Nil
  then show ?case by simp
next
  case (Cons conn conns)
  then show ?case by (auto split: sum.splits dest: deps_conn_clients_ok)
qed

lemma deps_loop_clients_ok:
  "deps_loop lookup pcs d = Inr d' \<Longrightarrow> clients_ok (listening_services d) \<Longrightarrow>
     clients_ok (listening_services d')"
proof (induction pcs arbitrary: d)
  case Nil
  then show ?case by simp
next
  case (Cons pc pcs)
  obtain pid conns where pc: "pc = (pid, conns)" by (cases pc)
  show ?case
    using Cons unfolding pc
    by (auto split: option.splits sum.splits dest: deps_conns_clients_ok)
qed

lemma get_port_dependencies_clients_ok:
  assumes "get_port_dependencies lookup st = Inr pd"
  shows "clients_ok (listening_services pd)"
proof -
  from assms obtain d where
    loop: "deps_loop lookup (process_connections st)
             \<lparr>listening_services = initial_listening_services (port_service_map st),
              port_usage_map = [], dependency_graph = []\<rparr> = Inr d"
    and pd: "pd = d\<lparr>port_usage_map := port_usage_summary (listening_services d)\<rparr>"
    by (auto simp add: get_port_dependencies_def split: sum.splits)
  have "clients_ok (initial_listening_services psm)" for psm
    by (auto simp add: clients_ok_def initial_listening_services_def)
  with deps_loop_clients_ok [OF loop] pd show ?thesis
    by simp
qed

lemma track_service_client_lookup:
  "map_of (track_service_client t n pid port sc) s =
     (if s = t then
        Some (let cur = (case map_of sc t of None \<Rightarrow> [] | Some cs \<Rightarrow> cs)
              in if n \<in> client ` set cur then cur
                 else cur @ [\<lparr>client = n, sc_client_pid = pid, sc_port = port\<rparr>])
      else map_of sc s)"
  by (simp add: track_service_client_def Let_def map_of_update)

lemma sc_ok_track:
  assumes ok: "sc_ok m"
  shows "sc_ok (m\<lparr>process_to_service := pts,
           service_clients := track_service_client t n pid port (service_clients m),
           communication_matrix := communication_matrix m @
             [\<lparr>source_process = n, source_pid = pid, target_service = Some t, target_host = None,
               target_port = port, connection_type = Local, cm_protocol = proto,
               likely_service = None\<rparr>]\<rparr>)"
proof -
  let ?sc = "service_clients m"
  define cur where "cur = (case map_of ?sc t of None \<Rightarrow> [] | Some cs \<Rightarrow> cs)"
  define cs' where "cs' = (if n \<in> client ` set cur then cur
                            else cur @ [\<lparr>client = n, sc_client_pid = pid, sc_port = port\<rparr>])"
  let ?sc' = "track_service_client t n pid port ?sc"
  have look: "map_of ?sc' s = (if s = t then Some cs' else map_of ?sc s)" for s
    by (simp add: track_service_client_lookup cur_def cs'_def Let_def)
  have dcur: "distinct (map client cur)"
    using ok by (auto simp add: cur_def sc_ok_def split: option.splits)
  have dcs: "distinct (map client cs')"
    using dcur by (auto simp add: cs'_def)
  have sub: "set cur \<subseteq> set cs'"
    by (auto simp add: cs'_def)
  have mem: "n \<in> client ` set cs'"
    by (auto simp add: cs'_def)
  have a: "distinct (map client cs)" if "map_of ?sc' s = Some cs" for s cs
    using that ok dcs by (auto simp add: look sc_ok_def split: if_splits)
  have b: "\<exists>s cs. target_service e = Some s \<and> map_of ?sc' s = Some cs \<and> source_process e \<in> client ` set cs"
    if e: "e \<in> set (communication_matrix m)" and l: "connection_type e = Local" for e
  proof -
    from ok e l obtain s cs where s: "target_service e = Some s" "map_of ?sc s = Some cs"
      "source_process e \<in> client ` set cs"
      unfolding sc_ok_def by blast
    show ?thesis
    proof (cases "s = t")
      case True
      then have "cur = cs" using s(2) by (simp add: cur_def)
      then have "source_process e \<in> client ` set cs'" using s(3) sub by auto
      then show ?thesis using s(1) True look by auto
    next
      case False
      then show ?thesis using s look by auto
    qed
  qed
  have c: "\<exists>s cs. Some t = Some s \<and> map_of ?sc' s = Some cs \<and> n \<in> client ` set cs"
    using look mem by auto
  show ?thesis
    unfolding sc_ok_def using a b c by auto
qed

lemma sc_ok_external:
  assumes "sc_ok m" "connection_type e = External"
  shows "sc_ok (m\<lparr>process_to_service := pts, communication_matrix := communication_matrix m @ [e]\<rparr>)"
  using assms unfolding sc_ok_def by auto

lemma sc_ok_cong:
  "service_clients m' = service_clients m2 \<Longrightarrow> communication_matrix m' = communication_matrix m2 \<Longrightarrow>
     sc_ok m2 \<Longrightarrow> sc_ok m'"
  by (simp add: sc_ok_def)

lemma comm_conn_sc_ok:
  assumes run: "comm_conn psm proc_name pid conn m = Inr m'" and ok: "sc_ok m"
  shows "sc_ok m'"
proof (cases "ci_status conn = ''ESTABLISHED'' \<and> truthy (remote_address conn)")
  case False
  then show ?thesis
    using run ok by (auto simp add: comm_conn_def split: if_splits)
next
  case est: True
  let ?a = "case remote_address conn of Some a \<Rightarrow> a | None \<Rightarrow> []"
  let ?proto = "if sublist ''STREAM'' (ci_type conn) then TCP else UDP"
  from run est obtain ip port lport where
    parse: "grapher_parse_remote ?a = Inr (ip, port)"
    and lp: "grapher_local_port (local_address conn) = Inr lport"
    by (auto simp add: comm_conn_def split: sum.splits)
  show ?thesis
  proof (cases "grapher_is_local ip")
    case True
    let ?e = "\<lparr>source_process = proc_name, source_pid = pid,
               target_service = Some (target_service_of psm port), target_host = None,
               target_port = port, connection_type = Local, cm_protocol = ?proto,
               likely_service = None\<rparr>"
    have sc: "service_clients m' =
        track_service_client (target_service_of psm port) proc_name pid port (service_clients m)"
      and cm: "communication_matrix m' = communication_matrix m @ [?e]"
      using run est parse lp True
      by (auto simp add: comm_conn_def Let_def add_local_connection_def)
    show ?thesis
      by (rule sc_ok_cong [OF _ _ sc_ok_track [OF ok, where pts = "process_to_service m"
              and t = "target_service_of psm port" and n = proc_name and pid = pid
              and port = port and proto = ?proto]])
        (simp_all add: sc cm)
  next
    case False
    let ?e = "\<lparr>source_process = proc_name, source_pid = pid,
               target_service = None, target_host = Some ip,
               target_port = port, connection_type = External, cm_protocol = ?proto,
               likely_service = Some (identify_service_by_port_linux port)\<rparr>"
    have sc: "service_clients m' = service_clients m"
      and cm: "communication_matrix m' = communication_matrix m @ [?e]"
      using run est parse lp False
      by (auto simp add: comm_conn_def Let_def add_external_connection_def)
    show ?thesis
      by (rule sc_ok_cong [OF _ _ sc_ok_external [OF ok, where e = ?e and pts = "process_to_service m"]])
        (simp_all add: sc cm)
  qed
qed

lemma comm_conns_sc_ok:
  "sc_ok m \<Longrightarrow> (case comm_conns psm proc_name pid conns m of Inl (e, m') \<Rightarrow> sc_ok m' | Inr m' \<Rightarrow> sc_ok m')"
proof (induction conns arbitrary: m)
  case Nil
  then show ?case by simp
next
  case (Cons conn conns)
  show ?case
  proof (cases "comm_conn psm proc_name pid conn m")
    case (Inl e)
    then show ?thesis using Cons.prems by simp
  next
    case (Inr m1)
    then have "sc_ok m1" using Cons.prems by (rule comm_conn_sc_ok)
    then show ?thesis using Cons.IH [of m1] Inr by simp
  qed
qed

lemma comm_process_sc_ok:
  assumes "sc_ok m"
  shows "case comm_process lookup psm pid conns m of Inl (e, m') \<Rightarrow> sc_ok m' | Inr m' \<Rightarrow> sc_ok m'"
proof (cases "lookup pid")
  case None
  then show ?thesis using assms by (simp add: comm_process_def)
next
  case (Some p)
  have "sc_ok (m\<lparr>process_to_service := pts\<rparr>)" for pts
    using assms by (simp add: sc_ok_def)
  then have "sc_ok (if map_of (process_to_service m) (p_name p) = None then
                       m\<lparr>process_to_service :=
                           AList.update (p_name p)
                             \<lparr>pe_pid = pid, pe_cmdline = p_cmdline p,
                              local_connections = [], external_connections = []\<rparr>
                             (process_to_service m)\<rparr>
                     else m)"
    using assms by simp
  then show ?thesis
    using Some comm_conns_sc_ok by (simp add: comm_process_def Let_def)
qed

lemma comm_loop_sc_ok:
  "sc_ok m \<Longrightarrow> (case comm_loop lookup psm pcs m of Inl (e, m') \<Rightarrow> sc_ok m' | Inr m' \<Rightarrow> sc_ok m')"
proof (induction pcs arbitrary: m)
  case Nil
  then show ?case by simp
next
  case (Cons pc pcs)
  obtain pid conns where pc: "pc = (pid, conns)" by (cases pc)
  show ?case
  proof (cases "comm_process lookup psm pid conns m")
    case (Inl em)
    then show ?thesis
      using comm_process_sc_ok [OF Cons.prems, of lookup psm pid conns] pc by simp
  next
    case (Inr m1)
    then have "sc_ok m1"
      using comm_process_sc_ok [OF Cons.prems, of lookup psm pid conns] by simp
    then show ?thesis using Cons.IH [of m1] Inr pc by simp
  qed
qed

lemma communication_map_sc_ok: "sc_ok (get_application_communication_map lookup st)"
proof -
  have "sc_ok empty_comm_map"
    by (simp add: sc_ok_def empty_comm_map_def)
  from comm_loop_sc_ok [OF this, of lookup "port_service_map st" "process_connections st"]
  show ?thesis
    by (auto simp add: get_application_communication_map_def split: sum.splits prod.splits)
qed

lemma distinct_map_count_one:
  "distinct (map f xs) \<Longrightarrow> v \<in> f ` set xs \<Longrightarrow> length (filter (\<lambda>x. f x = v) xs) = 1"
proof (induction xs)
  case Nil
  then show ?case by simp
next
  case (Cons x xs)
  show ?case
  proof (cases "f x = v")
    case True
    then have "v \<notin> f ` set xs" using Cons.prems(1) by auto
    then have "filter (\<lambda>x. f x = v) xs = []" by (auto simp add: filter_empty_conv)
    then show ?thesis using True by simp
  next
    case False
    then show ?thesis using Cons by auto
  qed
qed

lemma dependency_of_skip:
  assumes "\<not> (ci_status conn = ''ESTABLISHED'' \<and> truthy (remote_address conn))"
  shows "dependency_of psm nm pid conn = []"
  using assms by (auto simp add: dependency_of_def)

lemma dependency_of_raise:
  assumes "ci_status conn = ''ESTABLISHED''" "truthy (remote_address conn)"
    "deps_parse_remote (case remote_address conn of Some a \<Rightarrow> a | None \<Rightarrow> []) = Inl e"
  shows "dependency_of psm nm pid conn = []"
  using assms by (simp add: dependency_of_def)

lemma dependency_of_parsed:
  assumes "ci_status conn = ''ESTABLISHED''" "truthy (remote_address conn)"
    "deps_parse_remote (case remote_address conn of Some a \<Rightarrow> a | None \<Rightarrow> []) = Inr (ip, port)"
  shows "dependency_of psm nm pid conn =
     (if deps_is_local ip then
        (case map_of psm port of None \<Rightarrow> []
         | Some info \<Rightarrow> [\<lparr>client_process = nm, client_pid = pid, server_port = port,
                      server_service = ps_service info, dependency_type = ''port-level''\<rparr>])
      else [])"
  using assms by (simp add: dependency_of_def)

lemma count_optional_singleton:
  "length (filter P (if loc then (case m of None \<Rightarrow> [] | Some info \<Rightarrow> [f info]) else [])) =
     (if loc \<and> (\<exists>info. m = Some info \<and> P (f info)) then 1 else 0)"
  by (cases m; cases loc; simp)

lemma count_dependency_of:
  "length (filter (\<lambda>e. client_process e = name \<and> server_port e = q) (dependency_of psm nm pid conn)) =
     (if map_of psm q \<noteq> None \<and> nm = name \<and> dependency_local q conn then 1 else 0)"
proof (cases "ci_status conn = ''ESTABLISHED'' \<and> truthy (remote_address conn)")
  case False
  then have "dependency_of psm nm pid conn = []" by (rule dependency_of_skip)
  then show ?thesis using False by (auto simp add: dependency_local_def)
next
  case True
  let ?a = "case remote_address conn of Some a \<Rightarrow> a | None \<Rightarrow> []"
  show ?thesis
  proof (cases "deps_parse_remote ?a")
    case (Inl e)
    then have "dependency_of psm nm pid conn = []"
      using True by (simp add: dependency_of_raise)
    then show ?thesis using Inl by (simp add: dependency_local_def)
  next
    case (Inr ipport)
    obtain ip port where ipport: "ipport = (ip, port)" by (cases ipport)
    have p: "deps_parse_remote ?a = Inr (ip, port)" using Inr ipport by simp
    have d: "dependency_of psm nm pid conn =
     (if deps_is_local ip then
        (case map_of psm port of None \<Rightarrow> []
         | Some info \<Rightarrow> [\<lparr>client_process = nm, client_pid = pid, server_port = port,
                      server_service = ps_service info, dependency_type = ''port-level''\<rparr>])
      else [])"
      using True p by (simp add: dependency_of_parsed)
    have l: "dependency_local q conn = (deps_is_local ip \<and> port = q)"
      using True p by (simp add: dependency_local_def)
    have "(\<exists>info. map_of psm port = Some info \<and> nm = name \<and> port = q) =
          (map_of psm q \<noteq> None \<and> nm = name \<and> port = q)"
      by blast
    then show ?thesis
      unfolding d l count_optional_singleton by simp
  qed
qed

lemma count_dependency_conns:
  "length (filter (\<lambda>e. client_process e = name \<and> server_port e = q)
            (concat (map (dependency_of psm nm pid) conns))) =
     (if map_of psm q = None \<or> nm \<noteq> name then 0
      else length (filter (dependency_local q) conns))"
proof (induction conns)
  case Nil
  then show ?case by simp
next
  case (Cons c conns)
  show ?case
    using Cons.IH count_dependency_of [of name q psm nm pid c]
    by (simp split: if_splits)
qed

lemma count_edges:
  "length (filter (\<lambda>e. client_process e = name \<and> server_port e = q)
            (edges_per_connection lookup psm pcs)) =
     (if map_of psm q = None then 0
      else length (filter (dependency_client lookup name q) (connections_of pcs)))"
proof (induction pcs)
  case Nil
  then show ?case by (simp add: edges_per_connection_def connections_of_def)
next
  case (Cons pc pcs)
  obtain pid conns where pc: "pc = (pid, conns)" by (cases pc)
  have e: "edges_per_connection lookup psm (pc # pcs) =
      (case lookup pid of None \<Rightarrow> [] | Some p \<Rightarrow> concat (map (dependency_of psm (p_name p) pid) conns))
      @ edges_per_connection lookup psm pcs"
    by (simp add: edges_per_connection_def pc)
  have c: "connections_of (pc # pcs) = map (Pair pid) conns @ connections_of pcs"
    by (simp add: connections_of_def pc)
  have f: "filter (dependency_client lookup name q) (map (Pair pid) conns) =
      map (Pair pid) (filter (\<lambda>c. dependency_client lookup name q (pid, c)) conns)"
    by (simp add: filter_map o_def)
  show ?case
  proof (cases "lookup pid")
    case None
    then have "filter (\<lambda>c. dependency_client lookup name q (pid, c)) conns = []"
      by (simp add: dependency_client_def)
    then show ?thesis
      using Cons.IH None by (simp add: e c f)
  next
    case (Some p)
    have "filter (\<lambda>c. dependency_client lookup name q (pid, c)) conns =
          (if p_name p = name then filter (dependency_local q) conns else [])"
      using Some by (simp add: dependency_client_def)
    then show ?thesis
      using Cons.IH Some count_dependency_conns [of name q psm "p_name p" pid conns]
      by (simp add: e c f)
  qed
qed

lemma deps_conn_step:
  assumes run: "deps_conn proc_name pid conn d = Inr d'"
  shows "d' = d \<or>
         (\<exists>port ls. map_of (listening_services d) port = Some ls \<and>
            d' = d\<lparr>listening_services :=
                     AList.update port
                       (if \<lparr>ci_client_process = proc_name, ci_client_pid = pid\<rparr> \<in> set (clients ls) then ls
                        else ls\<lparr>clients := clients ls @ [\<lparr>ci_client_process = proc_name, ci_client_pid = pid\<rparr>]\<rparr>)
                       (listening_services d),
                   dependency_graph := dependency_graph d @
                     [\<lparr>client_process = proc_name, client_pid = pid, server_port = port,
                       server_service = service ls, dependency_type = ''port-level''\<rparr>]\<rparr>)"
proof (cases "ci_status conn = ''ESTABLISHED'' \<and> truthy (remote_address conn)")
  case False
  then show ?thesis
    using run by (auto simp add: deps_conn_def split: if_splits)
next
  case True
  let ?a = "case remote_address conn of Some a \<Rightarrow> a | None \<Rightarrow> []"
  show ?thesis
  proof (cases "deps_parse_remote ?a")
    case (Inl e)
    then show ?thesis
      using run True by (simp add: deps_conn_def)
  next
    case (Inr ipport)
    obtain ip port where ipport: "ipport = (ip, port)" by (cases ipport)
    show ?thesis
    proof (cases "deps_is_local ip \<and> map_of (listening_services d) port \<noteq> None")
      case False
      then show ?thesis
        using run True Inr ipport by (auto simp add: deps_conn_def split: if_splits option.splits)
    next
      case loc: True
      then obtain ls where ls: "map_of (listening_services d) port = Some ls" by auto
      let ?c = "\<lparr>ci_client_process = proc_name, ci_client_pid = pid\<rparr>"
      let ?ls' = "if ?c \<in> set (clients ls) then ls else ls\<lparr>clients := clients ls @ [?c]\<rparr>"
      have sv: "service ?ls' = service ls" by simp
      have "d' = d\<lparr>listening_services := AList.update port ?ls' (listening_services d),
                       dependency_graph := dependency_graph d @
                         [\<lparr>client_process = proc_name, client_pid = pid, server_port = port,
                           server_service = service ?ls', dependency_type = ''port-level''\<rparr>]\<rparr>"
        using run True Inr ipport loc ls by (simp add: deps_conn_def Let_def)
      then have "d' = d\<lparr>listening_services := AList.update port ?ls' (listening_services d),
                       dependency_graph := dependency_graph d @
                         [\<lparr>client_process = proc_name, client_pid = pid, server_port = port,
                           server_service = service ls, dependency_type = ''port-level''\<rparr>]\<rparr>"
        unfolding sv .
      with ls show ?thesis by blast
    qed
  qed
qed

lemma deps_conn_clients_match:
  assumes run: "deps_conn proc_name pid conn d = Inr d'" and ok: "clients_match d"
  shows "clients_match d'"
proof -
  from deps_conn_step [OF run] show ?thesis
  proof
    assume "d' = d"
    then show ?thesis using ok by simp
  next
    let ?c = "\<lparr>ci_client_process = proc_name, ci_client_pid = pid\<rparr>"
    assume "\<exists>port ls. map_of (listening_services d) port = Some ls \<and>
            d' = d\<lparr>listening_services :=
                     AList.update port
                       (if ?c \<in> set (clients ls) then ls else ls\<lparr>clients := clients ls @ [?c]\<rparr>)
                       (listening_services d),
                   dependency_graph := dependency_graph d @
                     [\<lparr>client_process = proc_name, client_pid = pid, server_port = port,
                       server_service = service ls, dependency_type = ''port-level''\<rparr>]\<rparr>"
    then obtain port ls where ls: "map_of (listening_services d) port = Some ls"
      and lss: "listening_services d' =
                  AList.update port
                    (if ?c \<in> set (clients ls) then ls else ls\<lparr>clients := clients ls @ [?c]\<rparr>)
                    (listening_services d)"
      and dg: "dependency_graph d' = dependency_graph d @
                     [\<lparr>client_process = proc_name, client_pid = pid, server_port = port,
                       server_service = service ls, dependency_type = ''port-level''\<rparr>]"
      by auto
    have old: "set (clients ls) = client_of ` {e \<in> set (dependency_graph d). server_port e = port}"
      using ok ls by (simp add: clients_match_def)
    show ?thesis
      unfolding clients_match_def
    proof (intro allI impI)
      fix q ls2
      assume look: "map_of (listening_services d') q = Some ls2"
      show "set (clients ls2) = client_of ` {e \<in> set (dependency_graph d'). server_port e = q}"
      proof (cases "q = port")
        case True
        then have "set (clients ls2) = insert ?c (set (clients ls))"
          using look by (auto simp add: lss map_of_update split: if_splits)
        also have "\<dots> = client_of ` {e \<in> set (dependency_graph d'). server_port e = q}"
        proof -
          let ?e = "\<lparr>client_process = proc_name, client_pid = pid, server_port = port,
                       server_service = service ls, dependency_type = ''port-level''\<rparr>"
          have "{e \<in> set (dependency_graph d @ [?e]). server_port e = port} =
                insert ?e {e \<in> set (dependency_graph d). server_port e = port}"
            by auto
          moreover have "client_of ?e = ?c"
            by (simp add: client_of_def)
          ultimately show ?thesis
            unfolding old dg True by (simp only: image_insert)
        qed
        finally show ?thesis .
      next
        case False
        then have "map_of (listening_services d) q = Some ls2"
          using look by (simp add: lss map_of_update)
        then have "set (clients ls2) = client_of ` {e \<in> set (dependency_graph d). server_port e = q}"
          using ok by (simp add: clients_match_def)
        also have "\<dots> = client_of ` {e \<in> set (dependency_graph d'). server_port e = q}"
          unfolding dg using False by auto
        finally show ?thesis .
      qed
    qed
  qed
qed

lemma deps_conns_clients_match:
  "deps_conns proc_name pid conns d = Inr d' \<Longrightarrow> clients_match d \<Longrightarrow> clients_match d'"
proof (induction conns arbitrary: d)
  case Nil
  then show ?case by simp
next
  case (Cons conn conns)
  then show ?case by (auto split: sum.splits dest: deps_conn_clients_match)
qed

lemma deps_loop_clients_match:
  "deps_loop lookup pcs d = Inr d' \<Longrightarrow> clients_match d \<Longrightarrow> clients_match d'"
proof (induction pcs arbitrary: d)
  case Nil
  then show ?case by simp
next
  case (Cons pc pcs)
  obtain pid conns where pc: "pc = (pid, conns)" by (cases pc)
  show ?case
    using Cons unfolding pc
    by (auto split: option.splits sum.splits dest: deps_conns_clients_match)
qed

lemma initial_clients_empty:
  "map_of (initial_listening_services psm) q = Some ls \<Longrightarrow> clients ls = []"
  by (induction psm) (auto simp add: initial_listening_services_def split: if_splits)

lemma get_port_dependencies_clients_match:
  assumes "get_port_dependencies lookup st = Inr pd"
  shows "clients_match pd"
proof -
  from assms obtain d where
    loop: "deps_loop lookup (process_connections st)
             \<lparr>listening_services = initial_listening_services (port_service_map st),
              port_usage_map = [], dependency_graph = []\<rparr> = Inr d"
    and pd: "pd = d\<lparr>port_usage_map := port_usage_summary (listening_services d)\<rparr>"
    by (auto simp add: get_port_dependencies_def split: sum.splits)
  have "clients_match \<lparr>listening_services = initial_listening_services psm,
              port_usage_map = [], dependency_graph = []\<rparr>" for psm
    by (auto simp add: clients_match_def dest: initial_clients_empty)
  from deps_loop_clients_match [OF loop this] pd show ?thesis
    by (simp add: clients_match_def)
qed

lemma has_local_entry_mono:
  "set (communication_matrix m) \<subseteq> set (communication_matrix m') \<Longrightarrow>
     has_local_entry m n t \<Longrightarrow> has_local_entry m' n t"
  unfolding has_local_entry_def by blast

lemma comm_conn_matrix:
  assumes run: "comm_conn psm n pid conn m = Inr m'"
  shows "set (communication_matrix m) \<subseteq> set (communication_matrix m') \<and>
         (\<forall>q. grapher_local q conn \<longrightarrow> has_local_entry m' n (target_service_of psm q))"
proof (cases "ci_status conn = ''ESTABLISHED'' \<and> truthy (remote_address conn)")
  case False
  then show ?thesis
    using run by (auto simp add: comm_conn_def grapher_local_def split: if_splits)
next
  case est: True
  let ?a = "case remote_address conn of Some a \<Rightarrow> a | None \<Rightarrow> []"
  let ?proto = "if sublist ''STREAM'' (ci_type conn) then TCP else UDP"
  from run est obtain ip port lport where
    parse: "grapher_parse_remote ?a = Inr (ip, port)"
    and lp: "grapher_local_port (local_address conn) = Inr lport"
    by (auto simp add: comm_conn_def split: sum.splits)
  have gl: "grapher_local q conn = (grapher_is_local ip \<and> port = q)" for q
    using est parse by (simp add: grapher_local_def)
  show ?thesis
  proof (cases "grapher_is_local ip")
    case True
    let ?e = "\<lparr>source_process = n, source_pid = pid,
               target_service = Some (target_service_of psm port), target_host = None,
               target_port = port, connection_type = Local, cm_protocol = ?proto,
               likely_service = None\<rparr>"
    have cm: "communication_matrix m' = communication_matrix m @ [?e]"
      using run est parse lp True
      by (auto simp add: comm_conn_def Let_def add_local_connection_def)
    have "has_local_entry m' n (target_service_of psm port)"
      unfolding has_local_entry_def cm by simp
    then show ?thesis
      using cm by (auto simp add: gl)
  next
    case False
    have "\<exists>e. communication_matrix m' = communication_matrix m @ [e]"
      using run est parse lp False
      by (auto simp add: comm_conn_def Let_def add_external_connection_def)
    then show ?thesis
      using False by (auto simp add: gl)
  qed
qed

lemma comm_conns_matrix:
  "comm_conns psm n pid conns m = Inr m' \<Longrightarrow>
     set (communication_matrix m) \<subseteq> set (communication_matrix m') \<and>
     (\<forall>conn \<in> set conns. \<forall>q. grapher_local q conn \<longrightarrow>
        has_local_entry m' n (target_service_of psm q))"
proof (induction conns arbitrary: m)
  case Nil
  then show ?case by simp
next
  case (Cons conn conns)
  from Cons.prems obtain m1 where
    st: "comm_conn psm n pid conn m = Inr m1" and rest: "comm_conns psm n pid conns m1 = Inr m'"
    by (auto split: sum.splits)
  note a = comm_conn_matrix [OF st]
  note b = Cons.IH [OF rest]
  have "has_local_entry m' n (target_service_of psm q)" if "grapher_local q conn" for q
    using a b that has_local_entry_mono by blast
  then show ?case
    using a b by auto
qed

lemma comm_process_matrix:
  assumes "comm_process lookup psm pid conns m = Inr m'"
  shows "set (communication_matrix m) \<subseteq> set (communication_matrix m') \<and>
     (\<forall>conn \<in> set conns. \<forall>name q. grapher_client lookup name q (pid, conn) \<longrightarrow>
        has_local_entry m' name (target_service_of psm q))"
proof (cases "lookup pid")
  case None
  then show ?thesis
    using assms by (simp add: comm_process_def grapher_client_def)
next
  case (Some p)
  let ?m1 = "if map_of (process_to_service m) (p_name p) = None then
                       m\<lparr>process_to_service :=
                           AList.update (p_name p)
                             \<lparr>pe_pid = pid, pe_cmdline = p_cmdline p,
                              local_connections = [], external_connections = []\<rparr>
                             (process_to_service m)\<rparr>
                     else m"
  have run: "comm_conns psm (p_name p) pid conns ?m1 = Inr m'"
    using assms Some by (simp add: comm_process_def Let_def)
  have cm: "communication_matrix ?m1 = communication_matrix m" by simp
  from comm_conns_matrix [OF run] show ?thesis
    unfolding cm using Some by (auto simp add: grapher_client_def)
qed

lemma comm_loop_matrix:
  "comm_loop lookup psm pcs m = Inr m' \<Longrightarrow>
     set (communication_matrix m) \<subseteq> set (communication_matrix m') \<and>
     (\<forall>pc \<in> set (connections_of pcs). \<forall>name q. grapher_client lookup name q pc \<longrightarrow>
        has_local_entry m' name (target_service_of psm q))"
proof (induction pcs arbitrary: m)
  case Nil
  then show ?case by (simp add: connections_of_def)
next
  case (Cons pc pcs)
  obtain pid conns where pc: "pc = (pid, conns)" by (cases pc)
  from Cons.prems pc obtain m1 where
    st: "comm_process lookup psm pid conns m = Inr m1" and rest: "comm_loop lookup psm pcs m1 = Inr m'"
    by (auto split: sum.splits)
  note a = comm_process_matrix [OF st]
  note b = Cons.IH [OF rest]
  have c: "connections_of (pc # pcs) = map (Pair pid) conns @ connections_of pcs"
    by (simp add: connections_of_def pc)
  have "has_local_entry m' name (target_service_of psm q)"
    if "conn \<in> set conns" "grapher_client lookup name q (pid, conn)" for conn name q
    using a b that has_local_entry_mono by blast
  then show ?case
    using a b unfolding c by auto
qed

lemma local_entry_one_client:
  assumes "sc_ok m" "has_local_entry m name t"
  shows "\<exists>cs. map_of (service_clients m) t = Some cs \<and>
           length (filter (\<lambda>c. client c = name) cs) = 1"
proof -
  from assms obtain cs where cs: "map_of (service_clients m) t = Some cs" "name \<in> client ` set cs"
    unfolding sc_ok_def has_local_entry_def by fastforce
  from assms(1) cs(1) have "distinct (map client cs)"
    unfolding sc_ok_def by blast
  from distinct_map_count_one [OF this cs(2)] cs(1) show ?thesis by blast
qed

lemma grapher_one_client:
  assumes fin: "grapher_completes lookup st"
    and pc: "pc \<in> set (connections_of (process_connections st))"
    and cl: "grapher_client lookup name q pc"
  shows "\<exists>cs. map_of (service_clients (get_application_communication_map lookup st))
                (target_service_of (port_service_map st) q) = Some cs \<and>
           length (filter (\<lambda>c. client c = name) cs) = 1"
proof -
  let ?m = "get_application_communication_map lookup st"
  from fin have run: "comm_loop lookup (port_service_map st) (process_connections st) empty_comm_map = Inr ?m"
    by (auto simp add: grapher_completes_def get_application_communication_map_def split: sum.splits)
  from comm_loop_matrix [OF run] pc cl
  have "has_local_entry ?m name (target_service_of (port_service_map st) q)"
    by blast
  with communication_map_sc_ok show ?thesis
    by (rule local_entry_one_client)
qed

lemmas grapher_eval = get_application_communication_map_def comm_process_def comm_conn_def
  grapher_local_port_def grapher_is_local_def target_service_of_def add_local_connection_def
  add_external_connection_def track_service_client_def empty_comm_map_def truthy_def Let_def

lemma same_name_connections:
  "process_connections same_name_state =
       [(10, [mk_conn_info ex_procs (listener 5432 10)]),
        (20, [mk_conn_info ex_procs (client_conn 20 40000 ''127.0.0.1'' 5432),
              mk_conn_info ex_procs (client_conn 20 40001 ''127.0.0.1'' 5432)]),
        (21, [mk_conn_info ex_procs (client_conn 21 40002 ''127.0.0.1'' 5432)])]"
  "port_service_map same_name_state = [(5432, \<lparr>ps_service = ''postgres'', ps_pid = Some 10\<rparr>)]"
  by (simp_all add: same_name_state_def same_name_facts_def net_eval ex_eval str_eval)

lemma loopback_conn_fields:
  "remote_address (mk_conn_info ex_procs (client_conn pid lport ''127.0.0.1'' 5432)) = Some ''127.0.0.1:5432''"
  "ci_status (mk_conn_info ex_procs (client_conn pid lport ''127.0.0.1'' 5432)) = ''ESTABLISHED''"
  "ci_status (mk_conn_info ex_procs (listener 5432 10)) = ''LISTEN''"
  "local_address (mk_conn_info ex_procs (client_conn pid lport ''127.0.0.1'' 5432)) = Some (''127.0.0.1:'' @ str_nat lport)"
  by (simp_all add: mk_conn_info_def format_addr_def Let_def ex_eval str_eval)

lemma same_name_dependencies:
  "get_port_dependencies ex_procs same_name_state = Inr
      \<lparr>listening_services =
         [(5432, \<lparr>service = ''postgres'', ls_pid = Some 10, well_known_service = ''PostgreSQL'',
                   clients = [\<lparr>ci_client_process = ''app'', ci_client_pid = 20\<rparr>,
                              \<lparr>ci_client_process = ''app'', ci_client_pid = 21\<rparr>]\<rparr>)],
       port_usage_map =
         [(5432, \<lparr>pu_service = ''postgres'', well_known_name = ''PostgreSQL'', client_count = 2,
                   pu_clients = [''app'', ''app'']\<rparr>)],
       dependency_graph =
         [\<lparr>client_process = ''app'', client_pid = 20, server_port = 5432,
           server_service = ''postgres'', dependency_type = ''port-level''\<rparr>,
          \<lparr>client_process = ''app'', client_pid = 20, server_port = 5432,
           server_service = ''postgres'', dependency_type = ''port-level''\<rparr>,
          \<lparr>client_process = ''app'', client_pid = 21, server_port = 5432,
           server_service = ''postgres'', dependency_type = ''port-level''\<rparr>]\<rparr>"
  by (simp add: deps_eval same_name_connections loopback_conn_fields deps_parse_v4 ex_procs_def map_of_update
      identify_service_by_port_linux_def common_ports_def)

lemma stream_kind: "sublist ''STREAM'' ''SocketKind.SOCK_STREAM''"
  unfolding sublist_def
  by (rule exI [of _ "''SocketKind.SOCK_''"], rule exI [of _ "[]"]) simp

lemma client_conn_kind:
  "ci_type (mk_conn_info ex_procs (client_conn pid lport rip rport)) = ''SocketKind.SOCK_STREAM''"
  by (simp add: mk_conn_info_def Let_def ex_eval)

lemma same_name_grapher:
  "\<exists>m. comm_loop ex_procs (port_service_map same_name_state) (process_connections same_name_state)
          empty_comm_map = Inr m \<and>
        service_clients m = [(''postgres'', [\<lparr>client = ''app'', sc_client_pid = 20, sc_port = 5432\<rparr>])]"
  by (simp add: comm_process_def comm_conn_def same_name_connections loopback_conn_fields client_conn_kind stream_kind str_eval
      grapher_local_port_def grapher_parse_v4
      grapher_is_local_def target_service_of_def add_local_connection_def track_service_client_def
      empty_comm_map_def truthy_def Let_def ex_procs_def map_of_update)

section \<open>Auxiliary facts about the utilization log normalizer\<close>

lemma list_append_lookup:
  "k \<noteq> key \<Longrightarrow> map_of (list_append key v h) k = map_of h k"
  by (simp add: list_append_def map_of_update split: option.splits pyval.splits)

lemma list_append_present:
  "map_of h k \<noteq> None \<Longrightarrow> map_of (list_append key v h) k \<noteq> None"
  by (simp add: list_append_def map_of_update split: option.splits pyval.splits)

lemma sar_lines_lookup:
  "k \<noteq> ''average'' \<Longrightarrow> k \<noteq> ''hourly_data'' \<Longrightarrow>
   map_of (final_dict (sar_lines fl ls h)) k = map_of h k"
proof (induction ls arbitrary: h)
  case Nil
  then show ?case by (simp add: final_dict_def)
next
  case (Cons raw rest)
  have a: "map_of (final_dict (sar_lines fl rest (AList.update ''average'' v h))) k = map_of h k" for v
    using Cons.IH [OF Cons.prems, of "AList.update ''average'' v h"] Cons.prems
    by (simp add: map_of_update)
  have b: "map_of (final_dict (sar_lines fl rest (list_append ''hourly_data'' v h))) k = map_of h k" for v
    using Cons.IH [OF Cons.prems, of "list_append ''hourly_data'' v h"] Cons.prems
    by (simp add: list_append_lookup)
  have c: "map_of (final_dict (sar_lines fl rest h)) k = map_of h k"
    using Cons.IH [OF Cons.prems] .
  have d: "map_of (final_dict (Inl (msg, h))) k = map_of h k" for msg
    by (simp add: final_dict_def)
  show ?case
    by (simp add: Let_def a b c d split: sum.splits option.splits)
qed

lemma sar_lines_present:
  "map_of h k \<noteq> None \<Longrightarrow> map_of (final_dict (sar_lines fl ls h)) k \<noteq> None"
proof (induction ls arbitrary: h)
  case Nil
  then show ?case by (simp add: final_dict_def)
next
  case (Cons raw rest)
  have a: "map_of (final_dict (sar_lines fl rest (AList.update ''average'' v h))) k \<noteq> None" for v
    using Cons.prems by (intro Cons.IH) (simp add: map_of_update)
  have b: "map_of (final_dict (sar_lines fl rest (list_append ''hourly_data'' v h))) k \<noteq> None" for v
    using Cons.prems by (intro Cons.IH list_append_present)
  have c: "map_of (final_dict (sar_lines fl rest h)) k \<noteq> None"
    using Cons.prems by (rule Cons.IH)
  have d: "map_of (final_dict (Inl (msg, h))) k \<noteq> None" for msg
    using Cons.prems by (simp add: final_dict_def)
  show ?case
    using a b c d by (simp add: Let_def split: sum.splits option.splits)
qed

lemma handled_lookup:
  "map_of (case r of Inl (msg, h) \<Rightarrow> set_error (f msg) h | Inr h \<Rightarrow> h) k =
     (if k = ''error'' \<and> isl r then Some (PStr (f (fst (projl r)))) else map_of (final_dict r) k)"
  by (cases r) (auto simp add: set_error_def map_of_update final_dict_def)

lemma initial_lookup:
  "map_of (initial_cpu_history :: 'f pydict) ''available'' = Some (PBool False)"
  "map_of (initial_cpu_history :: 'f pydict) ''error'' = Some PNone"
  "map_of (initial_cpu_history :: 'f pydict) ''hourly_data'' = Some (PList [])"
  "map_of (initial_cpu_history :: 'f pydict) ''date'' = Some PNone"
  "map_of (initial_cpu_history :: 'f pydict) ''average'' = Some (PDict [])"
  by (simp_all add: initial_cpu_history_def)

lemma initial_present:
  "k \<in> set series_keys \<Longrightarrow> map_of (initial_cpu_history :: 'f pydict) k \<noteq> None"
  by (auto simp add: series_keys_def initial_cpu_history_def)

lemma linux_available:
  "map_of (get_previous_day_cpu_utilization_linux fl env) ''available'' =
     Some (PBool (path_exists env (sa_file_path env) \<and>
                  (\<exists>out err. run_sar env (sa_file_path env) = SarExit 0 out err)))"
proof (cases "path_exists env (sa_file_path env)")
  case False
  then show ?thesis
    by (simp add: get_previous_day_cpu_utilization_linux_def set_error_def map_of_update initial_lookup)
next
  case True
  show ?thesis
  proof (cases "run_sar env (sa_file_path env)")
    case (SarExit rc out err)
    show ?thesis
    proof (cases "rc = 0")
      case z: True
      show ?thesis
        using True SarExit z
        by (simp add: get_previous_day_cpu_utilization_linux_def handled_lookup sar_lines_lookup
            map_of_update)
    next
      case False
      then show ?thesis
        using True SarExit
        by (simp add: get_previous_day_cpu_utilization_linux_def set_error_def map_of_update
            initial_lookup)
    qed
  qed (use True in \<open>simp_all add: get_previous_day_cpu_utilization_linux_def set_error_def
        map_of_update initial_lookup\<close>)
qed


lemma linux_present:
  assumes "k \<in> set series_keys"
  shows "map_of (get_previous_day_cpu_utilization_linux fl env) k \<noteq> None"
proof -
  have i: "map_of (initial_cpu_history :: 'a pydict) k \<noteq> None"
    using assms by (rule initial_present)
  have e: "map_of (set_error msg (initial_cpu_history :: 'a pydict)) k \<noteq> None" for msg
    using i by (simp add: set_error_def map_of_update)
  have s: "map_of (final_dict (sar_lines fl ls
             (AList.update ''raw_output'' v1 (AList.update ''date'' v2
                (AList.update ''available'' v3 initial_cpu_history))))) k \<noteq> None" for ls v1 v2 v3
    using i by (intro sar_lines_present) (simp add: map_of_update)
  show ?thesis
    using e s
    by (simp add: get_previous_day_cpu_utilization_linux_def handled_lookup split: sar_outcome.splits)
qed

lemma add_point_length:
  "length (fst acc) \<le> length (snd acc) \<Longrightarrow>
     length (fst (add_point fl ts cv mv dv acc)) \<le> length (snd (add_point fl ts cv mv dv acc))"
  by (cases cv) (simp_all add: add_point_def)

lemma csv_rows_length:
  "length (fst acc) \<le> length (snd acc) \<Longrightarrow>
     length (fst (final_dict (csv_rows fl cols rows acc))) \<le>
     length (snd (final_dict (csv_rows fl cols rows acc)))"
proof (induction rows arbitrary: acc)
  case Nil
  then show ?case by (simp add: final_dict_def)
next
  case (Cons row rows)
  obtain t c m d where cols: "cols = (t, c, m, d)" by (cases cols)
  have a: "length (fst (csv_row fl cols row acc)) \<le> length (snd (csv_row fl cols row acc))"
    using Cons.prems by (simp add: cols csv_row_def add_point_length)
  show ?case
    using Cons.IH [OF a] Cons.IH [OF Cons.prems] Cons.prems
    by (simp add: final_dict_def)
qed

lemma file_error_lookup:
  "k \<noteq> ''file_errors'' \<Longrightarrow> map_of (file_error path msg h) k = map_of h k"
  by (simp add: file_error_def map_of_update)

lemma csv_file_state:
  "length (fst (fst s)) \<le> length (snd (fst s)) \<Longrightarrow>
     length (fst (fst (csv_file fl env path s))) \<le> length (snd (fst (csv_file fl env path s)))"
  "k \<noteq> ''file_errors'' \<Longrightarrow> map_of (snd (csv_file fl env path s)) k = map_of (snd s) k"
proof -
  let ?r = "csv_rows fl (find_columns 0 (hd (projr (read_csv env path))) (None, None, None, None))
              (tl (projr (read_csv env path))) (fst s)"
  have eq: "csv_file fl env path s =
      (case read_csv env path of
         Inl msg \<Rightarrow> (fst s, file_error path msg (snd s))
       | Inr rows \<Rightarrow>
           if length rows < 2 then s
           else (final_dict ?r, if isl ?r then file_error path (fst (projl ?r)) (snd s) else snd s))"
    by (cases "read_csv env path"; cases ?r) (auto simp add: csv_file_def final_dict_def)
  show "length (fst (fst (csv_file fl env path s))) \<le> length (snd (fst (csv_file fl env path s)))"
    if "length (fst (fst s)) \<le> length (snd (fst s))"
    unfolding eq using that csv_rows_length [OF that]
    by (cases "read_csv env path") simp_all
  show "map_of (snd (csv_file fl env path s)) k = map_of (snd s) k" if "k \<noteq> ''file_errors''"
    unfolding eq using that
    by (cases "read_csv env path") (simp_all add: file_error_lookup)
qed

lemma csv_fold_state:
  "length (fst (fst s)) \<le> length (snd (fst s)) \<Longrightarrow>
     length (fst (fst (fold (csv_file fl env) files s))) \<le>
     length (snd (fst (fold (csv_file fl env) files s)))"
  "k \<noteq> ''file_errors'' \<Longrightarrow> map_of (snd (fold (csv_file fl env) files s)) k = map_of (snd s) k"
proof -
  show "length (fst (fst (fold (csv_file fl env) files s))) \<le>
     length (snd (fst (fold (csv_file fl env) files s)))"
    if "length (fst (fst s)) \<le> length (snd (fst s))"
    using that by (induction files arbitrary: s) (simp_all add: csv_file_state(1))
  show "map_of (snd (fold (csv_file fl env) files s)) k = map_of (snd s) k" if "k \<noteq> ''file_errors''"
    using that by (induction files arbitrary: s) (simp_all add: csv_file_state(2))
qed

lemma export_fold_length:
  "length (fst acc) \<le> length (snd acc) \<Longrightarrow>
     length (fst (fold (export_row fl ks) rows acc)) \<le> length (snd (fold (export_row fl ks) rows acc))"
proof (induction rows arbitrary: acc)
  case Nil
  then show ?case by simp
next
  case (Cons row rows)
  obtain t c m d where ks: "ks = (t, c, m, d)" by (cases ks)
  have "length (fst (export_row fl ks row acc)) \<le> length (snd (export_row fl ks row acc))"
    using Cons.prems by (simp add: ks export_row_def add_point_length)
  then show ?case
    using Cons.IH by simp
qed

lemma samples_nonempty:
  "length (fst acc) \<le> length (snd acc) \<Longrightarrow> fst acc \<noteq> [] \<Longrightarrow> snd acc \<noteq> []"
  by (cases "fst acc") auto

lemma record_samples_lookup:
  "map_of (record_samples fl acc h) ''available'' = Some (PBool True)"
  "map_of (record_samples fl acc h) ''hourly_data'' = Some (PList (snd acc))"
  "map_of (record_samples fl acc h) ''error'' = map_of h ''error''"
  "map_of (record_samples fl acc h) ''file_type'' = map_of h ''file_type''"
  by (simp_all add: record_samples_def map_of_update)

lemma process_csv_cases:
  assumes "map_of h ''available'' = Some (PBool False)" "map_of h ''error'' = Some PNone"
  shows "series_ok (process_csv fl env files h) \<or>
         series_failed (PStr ''CSV files found but no valid CPU data extracted'')
           (process_csv fl env files h)"
proof -
  let ?s = "fold (csv_file fl env) files (([], []), h)"
  have len: "length (fst (fst ?s)) \<le> length (snd (fst ?s))"
    by (rule csv_fold_state(1)) simp
  have look: "map_of (snd ?s) ''available'' = Some (PBool False)" "map_of (snd ?s) ''error'' = Some PNone"
    using assms by (simp_all add: csv_fold_state(2))
  show ?thesis
  proof (cases "fst (fst ?s) = []")
    case True
    then show ?thesis
      using look by (simp add: process_csv_def Let_def series_failed_def set_error_def map_of_update)
  next
    case False
    with len have "snd (fst ?s) \<noteq> []" by (rule samples_nonempty)
    then have "series_ok (process_csv fl env files h)"
      using False look
      by (cases "report_print env")
        (simp_all add: process_csv_def Let_def series_ok_def record_samples_lookup map_of_update)
    then show ?thesis ..
  qed
qed

lemma parse_export_cases:
  assumes "map_of h ''available'' = Some (PBool False)" "map_of h ''error'' = Some PNone"
  shows "series_ok (parse_export fl env h) \<or> series_failed PNone (parse_export fl env h)"
proof (cases "read_export env")
  case (Inl msg)
  then show ?thesis
    using assms by (simp add: parse_export_def series_failed_def map_of_update)
next
  case (Inr rows)
  have upd: "series_ok (AList.update ''parse_error'' v r) = series_ok r"
    "series_failed e (AList.update ''parse_error'' v r) = series_failed e r" for v e and r :: "'a pydict"
    by (simp_all add: series_ok_def series_failed_def map_of_update)
  have fin: "series_ok (case remove_export env of None \<Rightarrow> r
                        | Some msg \<Rightarrow> AList.update ''parse_error'' (PStr msg) r) = series_ok r"
    "series_failed e (case remove_export env of None \<Rightarrow> r
                        | Some msg \<Rightarrow> AList.update ''parse_error'' (PStr msg) r) = series_failed e r"
    for e and r :: "'a pydict"
    by (cases "remove_export env"; simp add: upd)+
  have h: "series_failed PNone h"
    using assms by (simp add: series_failed_def)
  show ?thesis
  proof (cases "rows = []")
    case True
    then show ?thesis
      using Inr h by (simp add: parse_export_def fin)
  next
    case ne: False
    show ?thesis
    proof (cases "find_keys (map fst (hd rows)) (None, None, None, None)")
      case None
      then show ?thesis
        using Inr ne h by (simp add: parse_export_def upd)
    next
      case (Some ks)
      let ?acc = "fold (export_row fl ks) rows ([], [])"
      have len: "length (fst ?acc) \<le> length (snd ?acc)"
        by (rule export_fold_length) simp
      show ?thesis
      proof (cases "fst ?acc = []")
        case True
        then show ?thesis
          using Inr ne Some h by (simp add: parse_export_def Let_def fin)
      next
        case False
        with len have "snd ?acc \<noteq> []" by (rule samples_nonempty)
        then have "series_ok (record_samples fl ?acc h)"
          using assms by (simp add: series_ok_def record_samples_lookup)
        then show ?thesis
          using Inr ne Some False by (simp add: parse_export_def Let_def fin)
      qed
    qed
  qed
qed

lemma process_blg_cases:
  assumes "map_of h ''available'' = Some (PBool False)" "map_of h ''error'' = Some PNone"
  shows "series_ok (process_blg fl env files h) \<or> series_failed PNone (process_blg fl env files h)"
proof (cases "run_relog env (hd files)")
  case (RelogRaised msg)
  then show ?thesis
    using assms by (simp add: process_blg_def series_failed_def map_of_update)
next
  case (RelogExit rc err)
  show ?thesis
  proof (cases "rc = 0 \<and> export_exists env")
    case True
    then show ?thesis
      using RelogExit parse_export_cases [OF assms] by (simp add: process_blg_def)
  next
    case False
    then show ?thesis
      using RelogExit assms by (auto simp add: process_blg_def series_failed_def map_of_update)
  qed
qed

lemma note_irrelevant:
  "series_ok (AList.update ''note'' v r) = series_ok r"
  "series_failed e (AList.update ''note'' v r) = series_failed e r"
  by (simp_all add: series_ok_def series_failed_def map_of_update)



lemma perf_log_dir_nonempty: "perf_log_dir \<noteq> []"
  by (simp add: perf_log_dir_def)

lemma windows_states:
  "series_ok (get_previous_day_cpu_utilization_windows fl env) \<or>
   (if only_binary_logs env
    then series_failed PNone (get_previous_day_cpu_utilization_windows fl env)
    else (\<exists>msg. msg \<noteq> [] \<and>
            series_failed (PStr msg) (get_previous_day_cpu_utilization_windows fl env)))"
proof -
  let ?h0 = "AList.update ''date'' (PStr (w_yesterday_date env)) (initial_cpu_history :: 'a pydict)"
  let ?blg = "recent_files ''.blg'' (log_dir_files env)"
  let ?csv = "recent_files ''.csv'' (log_dir_files env)"
  let ?files = "if ?csv \<noteq> [] then ?csv else ?blg"
  let ?h1 = "AList.update ''file_type'' (PStr (if ?csv \<noteq> [] then ''csv'' else ''blg''))
               (AList.update ''log_files_found'' (PList (map PStr ?files)) ?h0)"
  have h0: "map_of ?h0 ''available'' = Some (PBool False)" "map_of ?h0 ''error'' = Some PNone"
    by (simp_all add: map_of_update initial_lookup)
  have h1: "map_of ?h1 ''available'' = Some (PBool False)" "map_of ?h1 ''error'' = Some PNone"
    by (simp_all add: map_of_update initial_lookup)
  have fail: "series_failed (PStr msg) (AList.update ''note'' v (set_error msg ?h0))" for msg v
    by (simp add: series_failed_def set_error_def map_of_update initial_lookup)
  show ?thesis
  proof (cases "log_dir_exists env")
    case False
    then have nb: "\<not> only_binary_logs env" by (simp add: only_binary_logs_def)
    have "\<exists>msg. msg \<noteq> [] \<and>
            series_failed (PStr msg) (get_previous_day_cpu_utilization_windows fl env)"
    proof (cases "pm_exists env")
      case True
      have "series_failed (PStr (''Performance Monitor log directory not found: '' @ perf_log_dir))
              (get_previous_day_cpu_utilization_windows fl env)"
        using False True by (simp add: get_previous_day_cpu_utilization_windows_def Let_def fail)
      then show ?thesis by (intro exI conjI) simp_all
    next
      case no: False
      have "series_failed (PStr ''Performance Monitor data collector not configured'')
              (get_previous_day_cpu_utilization_windows fl env)"
        using False no by (simp add: get_previous_day_cpu_utilization_windows_def Let_def fail)
      then show ?thesis by (intro exI conjI) simp_all
    qed
    then show ?thesis using nb by simp
  next
    case dir: True
    show ?thesis
    proof (cases "?files = []")
      case True
      then have nb: "\<not> only_binary_logs env"
        by (auto simp add: only_binary_logs_def split: if_splits)
      have "series_failed (PStr (''No Performance Monitor logs (.csv or .blg) found in '' @ perf_log_dir))
              (get_previous_day_cpu_utilization_windows fl env)"
        using dir True by (simp add: get_previous_day_cpu_utilization_windows_def Let_def fail)
      then have "\<exists>msg. msg \<noteq> [] \<and>
            series_failed (PStr msg) (get_previous_day_cpu_utilization_windows fl env)"
        by (intro exI conjI) simp_all
      then show ?thesis using nb by simp
    next
      case files: False
      let ?h2 = "if ?csv \<noteq> [] then process_csv fl env ?csv ?h1 else process_blg fl env ?blg ?h1"
      have res: "get_previous_day_cpu_utilization_windows fl env =
          (if \<not> is_available ?h2 then
             AList.update ''note''
               (PStr ''Performance Monitor logs found but data extraction needs more time or configuration.'') ?h2
           else ?h2)"
        using dir files by (simp add: get_previous_day_cpu_utilization_windows_def Let_def)
      have keep: "series_ok (get_previous_day_cpu_utilization_windows fl env) = series_ok ?h2"
        "series_failed e (get_previous_day_cpu_utilization_windows fl env) = series_failed e ?h2" for e
        unfolding res by (simp_all add: note_irrelevant)
      show ?thesis
      proof (cases "?csv = []")
        case True
        then have ob: "only_binary_logs env"
          using dir files by (simp add: only_binary_logs_def)
        from process_blg_cases [OF h1, of fl env ?blg] True ob show ?thesis
          unfolding keep by simp
      next
        case False
        then have nb: "\<not> only_binary_logs env" by (simp add: only_binary_logs_def)
        from process_csv_cases [OF h1, of fl env ?csv] False nb show ?thesis
          unfolding keep by auto
      qed
    qed
  qed
qed

lemma has_key_update: "has_key h k \<Longrightarrow> has_key (AList.update k' v h) k"
  by (simp add: has_key_def map_of_update)

lemma has_key_member: "has_key h k \<Longrightarrow> k \<in> fst ` set h"
  by (simp add: has_key_def map_of_eq_None_iff)

lemma series_key_cases:
  "k \<in> set series_keys \<Longrightarrow> k \<noteq> ''file_errors''"
  by (auto simp add: series_keys_def)

lemma initial_has_key: "k \<in> set series_keys \<Longrightarrow> has_key (initial_cpu_history :: 'f pydict) k"
  unfolding has_key_def by (rule initial_present)

lemma linux_has_key:
  "k \<in> set series_keys \<Longrightarrow> has_key (get_previous_day_cpu_utilization_linux fl env) k"
  unfolding has_key_def by (rule linux_present)

lemma record_samples_has_key: "has_key h k \<Longrightarrow> has_key (record_samples fl acc h) k"
  unfolding record_samples_def by (intro has_key_update)

lemma set_error_has_key: "has_key h k \<Longrightarrow> has_key (set_error msg h) k"
  unfolding set_error_def by (intro has_key_update)

lemma process_csv_has_key:
  assumes "k \<in> set series_keys" "has_key h k"
  shows "has_key (process_csv fl env files h) k"
proof -
  let ?s = "fold (csv_file fl env) files (([], []), h)"
  have "map_of (snd ?s) k = map_of h k"
    using series_key_cases [OF assms(1)] by (simp add: csv_fold_state(2))
  then have p: "has_key (snd ?s) k" using assms(2) by (simp add: has_key_def)
  show ?thesis
  proof (cases "fst (fst ?s) = []")
    case True
    have "has_key (AList.update ''debug_info'' v (AList.update ''note'' w (set_error msg (snd ?s)))) k"
      for v w msg
      by (intro has_key_update set_error_has_key p)
    then show ?thesis
      using True by (simp add: process_csv_def Let_def)
  next
    case False
    have a: "has_key (record_samples fl (fst ?s) (snd ?s)) k"
      by (intro record_samples_has_key p)
    have b: "has_key (AList.update ''parse_error'' v (record_samples fl (fst ?s) (snd ?s))) k" for v
      by (intro has_key_update a)
    show ?thesis
      using False a b by (cases "report_print env") (simp_all add: process_csv_def Let_def)
  qed
qed

lemma parse_export_has_key:
  assumes "has_key h k"
  shows "has_key (parse_export fl env h) k"
proof -
  have fin: "has_key (case remove_export env of None \<Rightarrow> r
                     | Some msg \<Rightarrow> AList.update ''parse_error'' (PStr msg) r) k"
    if "has_key r k" for r :: "'a pydict"
    using that by (cases "remove_export env") (simp_all add: has_key_update)
  have rs: "has_key (record_samples fl acc h) k" for acc
    using assms by (rule record_samples_has_key)
  have pe: "has_key (AList.update ''parse_error'' v h) k" for v
    using assms by (rule has_key_update)
  show ?thesis
  proof (cases "read_export env")
    case (Inl msg)
    then show ?thesis using pe by (simp add: parse_export_def)
  next
    case (Inr rows)
    show ?thesis
    proof (cases "rows = []")
      case True
      then show ?thesis using Inr fin [OF assms] by (simp add: parse_export_def)
    next
      case ne: False
      show ?thesis
      proof (cases "find_keys (map fst (hd rows)) (None, None, None, None)")
        case None
        then show ?thesis using Inr ne pe by (simp add: parse_export_def)
      next
        case (Some ks)
        show ?thesis
          using Inr ne Some fin [OF assms] fin [OF rs]
          by (simp add: parse_export_def Let_def)
      qed
    qed
  qed
qed

lemma process_blg_has_key:
  assumes "has_key h k"
  shows "has_key (process_blg fl env files h) k"
  using parse_export_has_key [OF assms, of fl env] has_key_update [OF assms]
  by (cases "run_relog env (hd files)") (simp_all add: process_blg_def)

lemma windows_has_key:
  assumes "k \<in> set series_keys"
  shows "has_key (get_previous_day_cpu_utilization_windows fl env) k"
proof -
  let ?h0 = "AList.update ''date'' (PStr (w_yesterday_date env)) (initial_cpu_history :: 'a pydict)"
  have h0: "has_key ?h0 k"
    by (intro has_key_update initial_has_key assms)
  have h1: "has_key (AList.update ''file_type'' v (AList.update ''log_files_found'' w ?h0)) k"
    for v w
    by (intro has_key_update h0)
  have c: "has_key (process_csv fl env files
             (AList.update ''file_type'' v (AList.update ''log_files_found'' w ?h0))) k"
    for files v w
    using assms h1 by (rule process_csv_has_key)
  have b: "has_key (process_blg fl env files
             (AList.update ''file_type'' v (AList.update ''log_files_found'' w ?h0))) k"
    for files v w
    using h1 by (rule process_blg_has_key)
  have e: "has_key (AList.update ''note'' v (set_error msg ?h0)) k" for v msg
    by (intro has_key_update set_error_has_key h0)
  have n: "has_key (if c then AList.update ''note'' v r else r) k" if "has_key r k"
    for c v and r :: "'a pydict"
    using that by (simp add: has_key_update)
  show ?thesis
    by (simp add: get_previous_day_cpu_utilization_windows_def Let_def has_key_update c b e)
qed







lemma sar_env_path: "sa_file_path (sar_env outcome) = ''/var/log/sysstat/sa03''"
  by (simp add: sa_file_path_def sar_env_def)

lemma sar_env_fields:
  "path_exists (sar_env outcome) p" "run_sar (sar_env outcome) p = outcome"
  by (simp_all add: sar_env_def)

lemma banner_run:
  "get_previous_day_cpu_utilization_linux ex_float sar_banner_env =
     [(''available'', PBool True), (''date'', PStr ''2026-11-03''), (''average'', PDict []),
      (''hourly_data'', PList []), (''raw_output'', PStr ''Linux 5.15 (host)''), (''error'', PNone)]"
  by (simp add: get_previous_day_cpu_utilization_linux_def sar_banner_env_def sar_env_def
      sa_file_path_def initial_cpu_history_def py_strip_def strip_chars_def is_space_def Let_def)



lemma csv_files:
  "recent_files ''.csv'' (log_dir_files csv_env) = [perf_log_dir @ [CHR 0x5C] @ ''cpu.csv'']"
  by (simp add: recent_files_def csv_env_def perf_env_def perf_log_dir_def suffix_def)




section \<open>Port/service indexer: which binding is kept\<close>

text \<open>
  C10. In the network section, \<open>listening_ports\<close> holds at most one entry per port, the
  entry of a port is the one built from the first \<open>LISTEN\<close> fact for that port in
  enumeration order, and the list is in strictly ascending order of port.
\<close>

theorem listening_ports_first_fact_sorted:
  assumes "get_network_info lookup (Some conns) st = Inr (ni, st')"
  shows "sorted_wrt (<) (map si_port (listening_ports ni)) \<and>
         distinct (map si_port (listening_ports ni)) \<and>
         (\<forall>si. si \<in> set (listening_ports ni) \<longleftrightarrow>
            (\<exists>c. find (listens_on (si_port si)) conns = Some c \<and> binding_of lookup c = Some si))"
proof -
  from assms obtain s where
    loop: "net_loop lookup conns \<lparr>ns_self = st, ns_listening_ports = [], ns_established = [], ns_connections = []\<rparr> = Inr s"
    and lp: "listening_ports ni = sort_key si_port (map snd (ns_listening_ports s))"
    by (rule get_network_info_Inr)
  have ok: "lp_ok (ns_listening_ports s)"
    using net_loop_lp_ok [OF loop] init_ok(1) by simp
  have srt: "sorted_wrt (<) (map si_port (listening_ports ni))"
    unfolding lp using ok by (rule sorted_listening)
  then have dst: "distinct (map si_port (listening_ports ni))"
    by (simp add: strict_sorted_iff)
  from srt dst listening_ports_member [OF assms] show ?thesis
    by blast
qed

theorem listening_ports_first_fact_sorted_witness:
  "\<exists>ni st.
     get_network_info ex_procs (Some [listener 8080 30, listener 5432 10, listener 8080 31]) init_state
       = Inr (ni, st) \<and>
     map si_port (listening_ports ni) = [5432, 8080] \<and>
     map si_pid (listening_ports ni) = [Some 10, Some 30] \<and>
     sorted_wrt (<) (map si_port (listening_ports ni)) \<and>
     distinct (map si_port (listening_ports ni))"
proof -
  have "\<forall>c \<in> set [listener 8080 30, listener 5432 10, listener 8080 31].
          c_status c = ''LISTEN'' \<longrightarrow> c_laddr c \<noteq> None"
    by (simp add: listener_def)
  then obtain ni st where
    run: "get_network_info ex_procs (Some [listener 8080 30, listener 5432 10, listener 8080 31]) init_state
            = Inr (ni, st)"
    using get_network_info_total by blast
  have conc: "map si_port (listening_ports ni) = [5432, 8080] \<and>
              map si_pid (listening_ports ni) = [Some 10, Some 30]"
    using run by (auto simp add: net_eval ex_eval str_eval)
  have srt: "sorted_wrt (<) (map si_port (listening_ports ni)) \<and>
             distinct (map si_port (listening_ports ni))"
    using listening_ports_first_fact_sorted [OF run] by simp
  show ?thesis
    using run conc srt by (intro exI [of _ ni] exI [of _ st]) simp
qed

text \<open>
  C4 (as the code has it). The port index keeps, for each port, the binding of the first
  \<open>LISTEN\<close> fact for that port in enumeration order: \<open>port_service_map\<close> maps the port to
  the owner of that first fact (and has no entry when that owner has no name), and
  every entry of \<open>listening_ports\<close> is built from the first fact for its port. There is
  no tie-break on the facts themselves, so the binding depends on the order.
\<close>

theorem port_index_first_listener:
  assumes "get_network_info lookup (Some conns) init_state = Inr (ni, st)"
  shows "map_of (port_service_map st) p =
           (case find (listens_on p) conns of
              None \<Rightarrow> None
            | Some c \<Rightarrow> index_entry lookup c) \<and>
         (\<forall>si \<in> set (listening_ports ni).
            \<exists>c. find (listens_on (si_port si)) conns = Some c \<and> binding_of lookup c = Some si)"
  using port_index_lookup [OF assms, of p] listening_ports_member [OF assms]
  by blast

theorem port_index_first_listener_witness:
  "\<exists>ni st.
     get_network_info ex_procs (Some [listener 8080 30, listener 8080 31]) init_state = Inr (ni, st) \<and>
     map_of (port_service_map st) 8080 = Some \<lparr>ps_service = ''nginx'', ps_pid = Some 30\<rparr>"
proof -
  have "\<forall>c \<in> set [listener 8080 30, listener 8080 31]. c_status c = ''LISTEN'' \<longrightarrow> c_laddr c \<noteq> None"
    by (simp add: listener_def)
  then obtain ni st where
    run: "get_network_info ex_procs (Some [listener 8080 30, listener 8080 31]) init_state = Inr (ni, st)"
    using get_network_info_total by blast
  have "map_of (port_service_map st) 8080 = Some \<lparr>ps_service = ''nginx'', ps_pid = Some 30\<rparr>"
    using port_index_first_listener [OF run, of 8080]
    by (simp add: listens_on_def index_entry_def owner_def ex_eval)
  with run show ?thesis
    by (intro exI [of _ ni] exI [of _ st]) simp
qed

text \<open>The two enumeration orders of the same two \<open>LISTEN\<close> facts for port 8080 leave
  different bindings in the port index.\<close>

theorem port_index_order_dependent:
  "\<not> isl (get_network_info ex_procs (Some [listener 8080 30, listener 8080 31]) init_state) \<and>
   \<not> isl (get_network_info ex_procs (Some [listener 8080 31, listener 8080 30]) init_state) \<and>
   port_service_map (snd (projr (get_network_info ex_procs (Some [listener 8080 30, listener 8080 31]) init_state))) =
     [(8080, \<lparr>ps_service = ''nginx'', ps_pid = Some 30\<rparr>)] \<and>
   port_service_map (snd (projr (get_network_info ex_procs (Some [listener 8080 31, listener 8080 30]) init_state))) =
     [(8080, \<lparr>ps_service = ''haproxy'', ps_pid = Some 31\<rparr>)]"
  by (simp add: net_eval ex_eval str_eval)

section \<open>Port/service indexer: a listener whose process lookup fails\<close>

text \<open>
  C5 (as the code has it). When the first \<open>LISTEN\<close> fact for a port has a failed process
  lookup, the run does not fail; the binding is kept in the network section's
  \<open>listening_ports\<close> with \<open>process_name\<close> null, and the port is a key neither of
  \<open>port_service_map\<close> nor, in any list, of \<open>service_port_map\<close>, so that the dependency
  builder has no \<open>listening_services\<close> and no \<open>port_usage_map\<close> entry for it.
\<close>

theorem failed_lookup_listener:
  assumes wf: "\<forall>c \<in> set conns. c_status c = ''LISTEN'' \<longrightarrow> c_laddr c \<noteq> None"
    and first: "find (listens_on p) conns = Some c"
    and fail: "owner lookup c = None"
  shows "\<exists>ni st. get_network_info lookup (Some conns) init_state = Inr (ni, st) \<and>
           (\<exists>si \<in> set (listening_ports ni). si_port si = p \<and> si_process_name si = None) \<and>
           map_of (port_service_map st) p = None \<and>
           (\<forall>(name, ports) \<in> set (service_port_map st). p \<notin> set ports) \<and>
           (\<forall>pd. get_port_dependencies lookup st = Inr pd \<longrightarrow>
              map_of (listening_services pd) p = None \<and> map_of (port_usage_map pd) p = None)"
proof -
  obtain ni st where run: "get_network_info lookup (Some conns) init_state = Inr (ni, st)"
    using get_network_info_total [OF wf] by blast
  from first have lis: "listens_on p c"
    by (auto simp add: find_Some_iff)
  then obtain la where la: "c_laddr c = Some la" "addr_port la = p"
    by (auto simp add: listens_on_def)
  let ?si = "mk_service_info lookup c la"
  have port: "si_port ?si = p" and name: "si_process_name ?si = None"
    using la fail by (simp_all add: mk_service_info_def mk_conn_info_def Let_def)
  have "?si \<in> set (listening_ports ni)"
    using listening_ports_member [OF run, of ?si] first la port
    by (simp add: binding_of_def)
  then have a: "\<exists>si \<in> set (listening_ports ni). si_port si = p \<and> si_process_name si = None"
    using port name by blast
  have b: "map_of (port_service_map st) p = None"
    using port_index_lookup [OF run, of p] first fail by (simp add: index_entry_def)
  have c: "\<forall>(name, ports) \<in> set (service_port_map st). p \<notin> set ports"
    using get_network_info_spm_ok [OF run] b by (fastforce simp add: spm_ok_def)
  have d: "map_of (listening_services pd) p = None \<and> map_of (port_usage_map pd) p = None"
    if "get_port_dependencies lookup st = Inr pd" for pd
    using get_port_dependencies_keys [OF that] b map_of_None_keys by metis
  from run a b c d show ?thesis by blast
qed

theorem failed_lookup_listener_witness:
  "find (listens_on 9000) [listener 9000 99, listener 9000 10] = Some (listener 9000 99) \<and>
   owner ex_procs (listener 9000 99) = None \<and>
   (\<exists>ni st. get_network_info ex_procs (Some [listener 9000 99, listener 9000 10]) init_state = Inr (ni, st) \<and>
      (\<exists>si \<in> set (listening_ports ni). si_port si = 9000 \<and> si_process_name si = None) \<and>
      map_of (port_service_map st) 9000 = None \<and>
      (\<forall>(name, ports) \<in> set (service_port_map st). 9000 \<notin> set ports) \<and>
      (\<forall>pd. get_port_dependencies ex_procs st = Inr pd \<longrightarrow>
         map_of (listening_services pd) 9000 = None \<and> map_of (port_usage_map pd) 9000 = None))"
proof -
  have wf: "\<forall>c \<in> set [listener 9000 99, listener 9000 10]. c_status c = ''LISTEN'' \<longrightarrow> c_laddr c \<noteq> None"
    by (simp add: listener_def)
  have first: "find (listens_on 9000) [listener 9000 99, listener 9000 10] = Some (listener 9000 99)"
    by (simp add: listens_on_def listener_def)
  have fail: "owner ex_procs (listener 9000 99) = None"
    by (simp add: owner_def ex_eval)
  from failed_lookup_listener [OF wf first fail] first fail show ?thesis
    by blast
qed

text \<open>A single \<open>LISTEN\<close> fact for port 9000 whose pid does not resolve: the run
  returns, the port index is empty, and the network section keeps the entry with a
  null process name.\<close>

theorem failed_lookup_not_indexed:
  "\<not> isl (get_network_info ex_procs (Some [listener 9000 99]) init_state) \<and>
   port_service_map (snd (projr (get_network_info ex_procs (Some [listener 9000 99]) init_state))) = [] \<and>
   map si_process_name (listening_ports (fst (projr (get_network_info ex_procs (Some [listener 9000 99]) init_state)))) = [None]"
  by (simp add: net_eval ex_eval str_eval)

section \<open>The postgres/app scenario\<close>

text \<open>
  C2. Given one \<open>LISTEN\<close> fact for port 5432 owned by pid 10 named postgres and one
  \<open>ESTABLISHED\<close> fact from pid 20 named app with remote endpoint 127.0.0.1:5432, in
  either order and whatever the remaining attributes of the two facts are:
  \<open>listening_services[5432].service\<close> is postgres, \<open>dependency_graph\<close> is exactly the one
  edge from app (pid 20) to port 5432 of postgres, and
  \<open>port_usage_map[5432].client_count\<close> is 1.
\<close>

theorem postgres_app_scenario:
  assumes "c_status l = ''LISTEN''" "c_laddr l = Some la" "addr_port la = 5432" "c_pid l = Some 10"
    and "lookup 10 = Some p10" "p_name p10 = ''postgres''"
    and "c_status e = ''ESTABLISHED''" "c_raddr e = Some \<lparr>addr_ip = ''127.0.0.1'', addr_port = 5432\<rparr>"
    and "c_pid e = Some 20" "lookup 20 = Some p20" "p_name p20 = ''app''"
    and "facts = [l, e] \<or> facts = [e, l]"
  shows "\<exists>r. correlate lookup (Some facts) = Inr r \<and>
           map_option service (map_of (listening_services (port_dependencies r)) 5432) = Some ''postgres'' \<and>
           dependency_graph (port_dependencies r) =
             [\<lparr>client_process = ''app'', client_pid = 20, server_port = 5432,
               server_service = ''postgres'', dependency_type = ''port-level''\<rparr>] \<and>
           map_option client_count (map_of (port_usage_map (port_dependencies r)) 5432) = Some 1"
proof -
  have p: "deps_parse_remote ''127.0.0.1:5432'' = Inr (''127.0.0.1'', 5432)"
    by (rule deps_parse_v4)
  from assms(12) show ?thesis
  proof
    assume "facts = [l, e]"
    then show ?thesis
      using assms(1-11)
      by (simp add: correlate_def net_eval deps_eval str_5432 p map_of_update)
  next
    assume "facts = [e, l]"
    then show ?thesis
      using assms(1-11)
      by (simp add: correlate_def net_eval deps_eval str_5432 p map_of_update)
  qed
qed

theorem postgres_app_scenario_witness:
  "\<exists>r. correlate ex_procs (Some [listener 5432 10, client_conn 20 40000 ''127.0.0.1'' 5432]) = Inr r \<and>
     map_option service (map_of (listening_services (port_dependencies r)) 5432) = Some ''postgres'' \<and>
     dependency_graph (port_dependencies r) =
       [\<lparr>client_process = ''app'', client_pid = 20, server_port = 5432,
         server_service = ''postgres'', dependency_type = ''port-level''\<rparr>] \<and>
     map_option client_count (map_of (port_usage_map (port_dependencies r)) 5432) = Some 1"
  by (rule postgres_app_scenario
        [where l = "listener 5432 10" and la = "\<lparr>addr_ip = ''0.0.0.0'', addr_port = 5432\<rparr>"
           and e = "client_conn 20 40000 ''127.0.0.1'' 5432" and lookup = ex_procs
           and ?p10.0 = "\<lparr>p_name = ''postgres'', p_username = ''postgres'', p_cmdline = ''postgres -D /var/lib/pgsql''\<rparr>"
           and ?p20.0 = "\<lparr>p_name = ''app'', p_username = ''www'', p_cmdline = ''app --serve''\<rparr>"])
     (simp_all add: ex_eval)

section \<open>Client deduplication and dependency edges\<close>

text \<open>
  C1 (as the code has it), for every run of the dependency builder that returns.
  \<open>dependency_graph\<close> is not deduplicated: it is the list of one edge for every
  \<open>ESTABLISHED\<close> loopback connection whose remote port is a key of the port index, so the
  number of edges of a pair (client process name, server port) is the number of such
  connections of processes of that name to that port, and zero for a port that is not
  in the index. What is deduplicated is the \<open>clients\<close> list of each listening service,
  by the pair (client_process, client_pid): it repeats no pair and holds exactly the
  pairs that occur on the edges to its port. \<open>service_clients\<close> is deduplicated by
  client process name: when the grapher has visited every connection, each connection
  that it takes as local has exactly one client entry of its process name under the
  label of its target; in every run, also one cut short, this holds for the connections
  that reached the matrix.
\<close>

theorem client_dedup_by_name_edges_per_connection:
  assumes "get_port_dependencies lookup st = Inr pd"
  shows "dependency_graph pd =
           edges_per_connection lookup (port_service_map st) (process_connections st) \<and>
         (\<forall>name q.
            length (filter (\<lambda>e. client_process e = name \<and> server_port e = q) (dependency_graph pd)) =
              (if map_of (port_service_map st) q = None then 0
               else length (filter (dependency_client lookup name q)
                              (connections_of (process_connections st))))) \<and>
         (\<forall>q ls. map_of (listening_services pd) q = Some ls \<longrightarrow>
            distinct (clients ls) \<and>
            set (clients ls) = client_of ` {e \<in> set (dependency_graph pd). server_port e = q}) \<and>
         (grapher_completes lookup st \<longrightarrow>
            (\<forall>pc \<in> set (connections_of (process_connections st)). \<forall>name q.
               grapher_client lookup name q pc \<longrightarrow>
               (\<exists>cs. map_of (service_clients (get_application_communication_map lookup st))
                        (target_service_of (port_service_map st) q) = Some cs \<and>
                     length (filter (\<lambda>c. client c = name) cs) = 1))) \<and>
         (\<forall>e \<in> set (communication_matrix (get_application_communication_map lookup st)).
            connection_type e = Local \<longrightarrow>
            (\<exists>s cs. target_service e = Some s \<and>
               map_of (service_clients (get_application_communication_map lookup st)) s = Some cs \<and>
               length (filter (\<lambda>c. client c = source_process e) cs) = 1))"
proof -
  let ?m = "get_application_communication_map lookup st"
  have a: "dependency_graph pd =
           edges_per_connection lookup (port_service_map st) (process_connections st)"
    using assms by (rule dependency_graph_edges)
  have b: "length (filter (\<lambda>e. client_process e = name \<and> server_port e = q) (dependency_graph pd)) =
              (if map_of (port_service_map st) q = None then 0
               else length (filter (dependency_client lookup name q)
                              (connections_of (process_connections st))))" for name q
    unfolding a by (rule count_edges)
  have c: "distinct (clients ls) \<and>
            set (clients ls) = client_of ` {e \<in> set (dependency_graph pd). server_port e = q}"
    if l: "map_of (listening_services pd) q = Some ls" for q ls
  proof -
    from l have "(q, ls) \<in> set (listening_services pd)" by (rule map_of_SomeD)
    then have "distinct (clients ls)"
      using get_port_dependencies_clients_ok [OF assms] by (auto simp add: clients_ok_def)
    moreover have "set (clients ls) = client_of ` {e \<in> set (dependency_graph pd). server_port e = q}"
      using get_port_dependencies_clients_match [OF assms] l by (simp add: clients_match_def)
    ultimately show ?thesis by simp
  qed
  have d: "\<exists>cs. map_of (service_clients ?m) (target_service_of (port_service_map st) q) = Some cs \<and>
                     length (filter (\<lambda>c. client c = name) cs) = 1"
    if "grapher_completes lookup st" "pc \<in> set (connections_of (process_connections st))"
      "grapher_client lookup name q pc" for pc name q
    using that by (rule grapher_one_client)
  have ok: "sc_ok ?m" by (rule communication_map_sc_ok)
  have e: "\<exists>s cs. target_service e = Some s \<and> map_of (service_clients ?m) s = Some cs \<and>
               length (filter (\<lambda>c. client c = source_process e) cs) = 1"
    if e: "e \<in> set (communication_matrix ?m)" and l: "connection_type e = Local" for e
  proof -
    from ok e l obtain s cs where s: "target_service e = Some s" "map_of (service_clients ?m) s = Some cs"
      "source_process e \<in> client ` set cs"
      unfolding sc_ok_def by blast
    from ok s(2) have "distinct (map client cs)"
      unfolding sc_ok_def by blast
    from distinct_map_count_one [OF this s(3)] s show ?thesis by blast
  qed
  from a b c d e show ?thesis by blast
qed

theorem client_dedup_by_name_edges_per_connection_witness:
  "\<not> isl (get_network_info ex_procs (Some same_name_facts) init_state) \<and>
   \<not> isl (get_port_dependencies ex_procs same_name_state) \<and>
   grapher_completes ex_procs same_name_state \<and>
   length (filter (dependency_client ex_procs ''app'' 5432)
             (connections_of (process_connections same_name_state))) = 3 \<and>
   length (filter (\<lambda>e. client_process e = ''app'' \<and> server_port e = 5432)
             (dependency_graph (projr (get_port_dependencies ex_procs same_name_state)))) = 3 \<and>
   map_option clients
     (map_of (listening_services (projr (get_port_dependencies ex_procs same_name_state))) 5432) =
     Some [\<lparr>ci_client_process = ''app'', ci_client_pid = 20\<rparr>,
           \<lparr>ci_client_process = ''app'', ci_client_pid = 21\<rparr>] \<and>
   map_of (service_clients (get_application_communication_map ex_procs same_name_state)) ''postgres'' =
     Some [\<lparr>client = ''app'', sc_client_pid = 20, sc_port = 5432\<rparr>]"
proof -
  let ?pd = "projr (get_port_dependencies ex_procs same_name_state)"
  have run: "\<not> isl (get_network_info ex_procs (Some same_name_facts) init_state)"
    by (simp add: same_name_facts_def net_eval ex_eval str_eval)
  have d: "get_port_dependencies ex_procs same_name_state = Inr ?pd"
    by (simp add: same_name_dependencies)
  have n: "length (filter (dependency_client ex_procs ''app'' 5432)
             (connections_of (process_connections same_name_state))) = 3"
    by (simp add: dependency_client_def dependency_local_def connections_of_def same_name_connections loopback_conn_fields
        deps_parse_v4 deps_is_local_def truthy_def ex_procs_def)
  have "length (filter (\<lambda>e. client_process e = ''app'' \<and> server_port e = 5432) (dependency_graph ?pd)) =
          (if map_of (port_service_map same_name_state) 5432 = None then 0
           else length (filter (dependency_client ex_procs ''app'' 5432)
                          (connections_of (process_connections same_name_state))))"
    using client_dedup_by_name_edges_per_connection [OF d] by blast
  then have e: "length (filter (\<lambda>e. client_process e = ''app'' \<and> server_port e = 5432)
                  (dependency_graph ?pd)) = 3"
    by (simp add: n same_name_connections(2))
  from same_name_grapher obtain m where
    m: "comm_loop ex_procs (port_service_map same_name_state) (process_connections same_name_state)
          empty_comm_map = Inr m"
    and sc: "service_clients m = [(''postgres'', [\<lparr>client = ''app'', sc_client_pid = 20, sc_port = 5432\<rparr>])]"
    by blast
  have g: "grapher_completes ex_procs same_name_state"
    by (simp add: grapher_completes_def m)
  have s: "map_of (service_clients (get_application_communication_map ex_procs same_name_state)) ''postgres'' =
     Some [\<lparr>client = ''app'', sc_client_pid = 20, sc_port = 5432\<rparr>]"
    by (simp add: get_application_communication_map_def m sc)
  show ?thesis
    using run g n e s by (simp add: same_name_dependencies)
qed

text \<open>One listener on port 5432 and two \<open>ESTABLISHED\<close> connections of the same process
  (pid 20, named app) to 127.0.0.1:5432: the run returns two edges for the pair
  (app, 5432).\<close>

theorem two_connections_two_edges:
  "\<not> isl (correlate ex_procs (Some two_conn_facts)) \<and>
   dependency_graph (port_dependencies (projr (correlate ex_procs (Some two_conn_facts)))) =
     [\<lparr>client_process = ''app'', client_pid = 20, server_port = 5432,
       server_service = ''postgres'', dependency_type = ''port-level''\<rparr>,
      \<lparr>client_process = ''app'', client_pid = 20, server_port = 5432,
       server_service = ''postgres'', dependency_type = ''port-level''\<rparr>]"
  by (simp add: correlate_def two_conn_facts_def net_eval deps_eval ex_eval str_eval deps_parse_v4
      map_of_update)

section \<open>Classification of a connection to the IPv6 loopback address\<close>

text \<open>
  C6, at an \<open>ESTABLISHED\<close> connection of pid 20 (app) to \<open>::1\<close> port 5432, where postgres
  listens. The grapher splits the rendered address \<open>::1:5432\<close> at every colon, the
  unpacking into two names raises \<open>ValueError\<close>, and the function returns the map as it
  stood: the connection is in no view, neither as local nor as external. The
  dependency builder, which splits at the last colon, takes the same connection as
  local and records the edge.
\<close>

theorem ipv6_loopback_not_classified:
  "\<not> isl (get_network_info ex_procs (Some v6_facts) init_state) \<and>
   grapher_parse_remote ''::1:5432'' = Inl ValueError \<and>
   communication_matrix (get_application_communication_map ex_procs v6_state) = [] \<and>
   service_clients (get_application_communication_map ex_procs v6_state) = [] \<and>
   map_option local_connections
     (map_of (process_to_service (get_application_communication_map ex_procs v6_state)) ''app'') = Some [] \<and>
   map_option external_connections
     (map_of (process_to_service (get_application_communication_map ex_procs v6_state)) ''app'') = Some [] \<and>
   \<not> isl (get_port_dependencies ex_procs v6_state) \<and>
   dependency_graph (projr (get_port_dependencies ex_procs v6_state)) =
     [\<lparr>client_process = ''app'', client_pid = 20, server_port = 5432,
       server_service = ''postgres'', dependency_type = ''port-level''\<rparr>]"
proof -
  have st: "process_connections v6_state =
      [(10, [mk_conn_info ex_procs (listener 5432 10)]),
       (20, [mk_conn_info ex_procs (client_conn 20 40000 ''::1'' 5432)])]"
    "port_service_map v6_state = [(5432, \<lparr>ps_service = ''postgres'', ps_pid = Some 10\<rparr>)]"
    by (simp_all add: v6_state_def v6_facts_def net_eval ex_eval str_eval)
  have run: "\<not> isl (get_network_info ex_procs (Some v6_facts) init_state)"
    by (simp add: v6_facts_def net_eval ex_eval str_eval)
  have ci: "remote_address (mk_conn_info ex_procs (client_conn 20 40000 ''::1'' 5432)) = Some ''::1:5432''"
    "ci_status (mk_conn_info ex_procs (client_conn 20 40000 ''::1'' 5432)) = ''ESTABLISHED''"
    "ci_status (mk_conn_info ex_procs (listener 5432 10)) = ''LISTEN''"
    by (simp_all add: mk_conn_info_def format_addr_def Let_def ex_eval str_eval)
  have g: "get_application_communication_map ex_procs v6_state =
      \<lparr>process_to_service =
         [(''postgres'', \<lparr>pe_pid = 10, pe_cmdline = ''postgres -D /var/lib/pgsql'',
                          local_connections = [], external_connections = []\<rparr>),
          (''app'', \<lparr>pe_pid = 20, pe_cmdline = ''app --serve'',
                     local_connections = [], external_connections = []\<rparr>)],
       service_clients = [], communication_matrix = []\<rparr>"
    by (simp add: get_application_communication_map_def comm_process_def comm_conn_def
        empty_comm_map_def truthy_def st ci grapher_parse_v6 ex_procs_def)
  have d: "get_port_dependencies ex_procs v6_state = Inr
      \<lparr>listening_services =
         [(5432, \<lparr>service = ''postgres'', ls_pid = Some 10, well_known_service = ''PostgreSQL'',
                   clients = [\<lparr>ci_client_process = ''app'', ci_client_pid = 20\<rparr>]\<rparr>)],
       port_usage_map =
         [(5432, \<lparr>pu_service = ''postgres'', well_known_name = ''PostgreSQL'', client_count = 1,
                   pu_clients = [''app'']\<rparr>)],
       dependency_graph =
         [\<lparr>client_process = ''app'', client_pid = 20, server_port = 5432,
           server_service = ''postgres'', dependency_type = ''port-level''\<rparr>]\<rparr>"
    by (simp add: deps_eval st ci deps_parse_v6 ex_procs_def map_of_update
        identify_service_by_port_linux_def common_ports_def)
  show ?thesis
    using run by (simp add: g d grapher_parse_v6)
qed

section \<open>The utilization log normalizer at its interface\<close>

text \<open>
  C9. The collector of the previous day's utilization is total on both platforms. Every
  outcome of the environment, also every exception that the file system, the helper
  program or a parser raises, is a value of the environment's types, and the handlers of
  the source map each of them to a dictionary, so the function has a result for every
  environment. That result always has the keys \<open>available\<close>, \<open>date\<close>, \<open>average\<close>,
  \<open>hourly_data\<close> and \<open>error\<close>, and \<open>available\<close> holds a boolean.
\<close>

theorem previous_day_cpu_total_keys:
  "set [''available'', ''date'', ''average'', ''hourly_data'', ''error'']
     \<subseteq> fst ` set (get_previous_day_cpu_utilization_linux fl env) \<and>
   set [''available'', ''date'', ''average'', ''hourly_data'', ''error'']
     \<subseteq> fst ` set (get_previous_day_cpu_utilization_windows fl wenv) \<and>
   (\<exists>b. map_of (get_previous_day_cpu_utilization_linux fl env) ''available'' = Some (PBool b)) \<and>
   (\<exists>b. map_of (get_previous_day_cpu_utilization_windows fl wenv) ''available'' = Some (PBool b))"
proof -
  have l: "k \<in> fst ` set (get_previous_day_cpu_utilization_linux fl env)" if "k \<in> set series_keys" for k
    using that by (intro has_key_member linux_has_key)
  have w: "k \<in> fst ` set (get_previous_day_cpu_utilization_windows fl wenv)" if "k \<in> set series_keys" for k
    using that by (intro has_key_member windows_has_key)
  have s: "set [''available'', ''date'', ''average'', ''hourly_data'', ''error''] = set series_keys"
    by (simp add: series_keys_def)
  have bl: "\<exists>b. map_of (get_previous_day_cpu_utilization_linux fl env) ''available'' = Some (PBool b)"
    by (simp add: linux_available)
  have bw: "\<exists>b. map_of (get_previous_day_cpu_utilization_windows fl wenv) ''available'' = Some (PBool b)"
    using windows_states [of fl wenv]
    by (auto simp add: series_ok_def series_failed_def split: if_splits)
  show ?thesis
    unfolding s using l w bl bw by blast
qed

text \<open>At a run where \<open>sar\<close> exceeds its bound and one where \<open>relog\<close> does, and the key
  order of a run where \<open>sar\<close> prints only its banner.\<close>

theorem previous_day_cpu_total_keys_witness:
  "set [''available'', ''date'', ''average'', ''hourly_data'', ''error'']
     \<subseteq> fst ` set (get_previous_day_cpu_utilization_linux ex_float sar_timeout_env) \<and>
   set [''available'', ''date'', ''average'', ''hourly_data'', ''error'']
     \<subseteq> fst ` set (get_previous_day_cpu_utilization_windows ex_float relog_timeout_env) \<and>
   map_of (get_previous_day_cpu_utilization_linux ex_float sar_timeout_env) ''available'' =
     Some (PBool False) \<and>
   map fst (get_previous_day_cpu_utilization_linux ex_float sar_banner_env) =
     [''available'', ''date'', ''average'', ''hourly_data'', ''raw_output'', ''error'']"
  using previous_day_cpu_total_keys [of ex_float sar_timeout_env relog_timeout_env]
  by (simp add: banner_run linux_available sar_timeout_env_def sar_env_fields)

section \<open>The states of a utilization series\<close>




section \<open>Failure of the helper program\<close>




end
